theory Spec2Isabelle
  imports Complex_Main
begin

section \<open>JavaScript values used by the Slack handler\<close>

text \<open>
  The handler of \<^verbatim>\<open>src/server/handlers/slackHandler.js\<close> is a class whose fields are the
  process-wide state. Strings are modelled as lists of ASCII code units, JavaScript
  numbers as the rationals they denote (no NaN, no infinities), and
  \<^verbatim>\<open>undefined\<close>/\<^verbatim>\<open>null\<close> as \<open>None\<close>. The one arithmetic operation of the code, the
  product in \<^verbatim>\<open>monitorProgress\<close>, is rounded to a double as IEEE 754 does. A handler is a function from the state to the
  new state and the calls it makes; it runs to its end with no other handler in between
  (the one place where the order of a write and an awaited call matters,
  \<^verbatim>\<open>/torrent-move\<close>, is split at the await).
\<close>

type_synonym number = rat

text \<open>Truthiness of a string: only the empty string is falsy.\<close>

definition truthy :: "string \<Rightarrow> bool" where
  "truthy s = (s \<noteq> [])"

text \<open>\<^verbatim>\<open>x || d\<close> on an optional number: \<^verbatim>\<open>undefined\<close> and \<open>0\<close> are falsy.\<close>

definition num_or :: "number option \<Rightarrow> number \<Rightarrow> number" where
  "num_or x d = (case x of None \<Rightarrow> d | Some v \<Rightarrow> if v = 0 then d else v)"

text \<open>\<^verbatim>\<open>x || d\<close> on an optional string.\<close>

definition str_or :: "string option \<Rightarrow> string \<Rightarrow> string" where
  "str_or x d = (case x of None \<Rightarrow> d | Some v \<Rightarrow> if truthy v then v else d)"

text \<open>\<^verbatim>\<open>Math.round\<close>: the nearest integer, a tie going up.\<close>

definition Math_round :: "number \<Rightarrow> int" where
  "Math_round y = \<lfloor>y + 1 / 2\<rfloor>"

subsection \<open>Double precision\<close>

text \<open>
  A double is a rational \<open>m * 2 ^ e\<close> with \<open>\<bar>m\<bar> < 2 ^ 53\<close> and \<open>- 1074 \<le> e\<close>. The result
  of an arithmetic operation on doubles is the exact result rounded to the nearest
  double, a tie going to the one with the even \<open>m\<close>. The number of binary digits of a
  positive integer, the powers of 2, and \<open>\<lfloor>log\<^sub>2 v\<rfloor>\<close> of a positive rational:
\<close>

function bit_length :: "int \<Rightarrow> int" where
  "bit_length n = (if 0 < n then 1 + bit_length (n div 2) else 0)"
  by pat_completeness auto
termination
  by (relation "measure nat") auto

function pow2 :: "int \<Rightarrow> rat" where
  "pow2 e = (if e = 0 then 1 else if 0 < e then 2 * pow2 (e - 1) else pow2 (e + 1) / 2)"
  by pat_completeness auto
termination
  by (relation "measure (\<lambda>e. nat \<bar>e\<bar>)") auto

declare bit_length.simps [simp del] pow2.simps [simp del]

definition floor_log2 :: "rat \<Rightarrow> int" where
  "floor_log2 v =
     (let (a, b) = quotient_of v;
          e = bit_length a - bit_length b
      in if pow2 e \<le> v then e else e - 1)"

text \<open>The nearest integer, a tie going to the even one.\<close>

definition round_half_even :: "rat \<Rightarrow> int" where
  "round_half_even v =
     (let n = \<lfloor>v\<rfloor>;
          r = v - of_int n
      in if r < 1 / 2 then n else if 1 / 2 < r then n + 1 else if even n then n else n + 1)"

text \<open>
  Rounding to a double: the spacing of the doubles around \<open>v\<close> is \<open>2 ^ q\<close> with
  \<open>q = \<lfloor>log\<^sub>2 \<bar>v\<bar>\<rfloor> - 52\<close>, and \<open>2 ^ - 1074\<close> for the subnormal ones. There being no
  infinities here, a value beyond the largest double is rounded the same way; the
  comparisons with 100 that \<^verbatim>\<open>updateTorrentProgress\<close> makes answer for it as they do for
  \<^verbatim>\<open>Infinity\<close>.
\<close>

definition to_double :: "rat \<Rightarrow> number" where
  "to_double v =
     (if v = 0 then 0
      else (let q = max (floor_log2 \<bar>v\<bar> - 52) (- 1074)
            in of_int (round_half_even (v / pow2 q)) * pow2 q))"

text \<open>\<^verbatim>\<open>x * y\<close> on doubles.\<close>

definition times_double :: "number \<Rightarrow> number \<Rightarrow> number" where
  "times_double x y = to_double (x * y)"

subsection \<open>Strings\<close>

definition toLowerCase_char :: "char \<Rightarrow> char" where
  "toLowerCase_char c =
     (let n = (of_char c :: nat) in if 65 \<le> n \<and> n \<le> 90 then char_of (n + 32) else c)"

definition toLowerCase :: "string \<Rightarrow> string" where
  "toLowerCase s = map toLowerCase_char s"

text \<open>\<^verbatim>\<open>s.startsWith(p)\<close>.\<close>

fun startsWith :: "string \<Rightarrow> string \<Rightarrow> bool" where
  "startsWith s [] = True"
| "startsWith [] (c # p) = False"
| "startsWith (d # s) (c # p) = (d = c \<and> startsWith s p)"

text \<open>\<^verbatim>\<open>s.includes(p)\<close>.\<close>

fun includes_str :: "string \<Rightarrow> string \<Rightarrow> bool" where
  "includes_str [] p = (p = [])"
| "includes_str (d # s) p = (startsWith (d # s) p \<or> includes_str s p)"

text \<open>The white space of \<^verbatim>\<open>\s\<close> and of \<^verbatim>\<open>trim\<close> among the ASCII characters.\<close>

definition is_space :: "char \<Rightarrow> bool" where
  "is_space c = ((of_char c :: nat) \<in> {9, 10, 11, 12, 13, 32})"

text \<open>The line terminators, which \<^verbatim>\<open>.\<close> does not match.\<close>

definition is_line_terminator :: "char \<Rightarrow> bool" where
  "is_line_terminator c = ((of_char c :: nat) \<in> {10, 13})"

definition trim :: "string \<Rightarrow> string" where
  "trim s = rev (dropWhile is_space (rev (dropWhile is_space s)))"

text \<open>
  \<^verbatim>\<open>s.split(/\s+/)\<close>: the pieces between maximal runs of white space; the result is
  never empty (the empty string gives one empty piece).
\<close>

function split_ws :: "string \<Rightarrow> string list" where
  "split_ws s =
     (case dropWhile (\<lambda>c. \<not> is_space c) s of
        [] \<Rightarrow> [s]
      | r # rest \<Rightarrow> takeWhile (\<lambda>c. \<not> is_space c) s # split_ws (dropWhile is_space rest))"
  by pat_completeness auto
termination
proof (relation "measure length")
  show "wf (measure length)" by simp
next
  fix s :: string and r rest
  assume a: "dropWhile (\<lambda>c. \<not> is_space c) s = r # rest"
  have "length (dropWhile is_space rest) \<le> length rest"
    by (rule length_dropWhile_le)
  moreover have "length (r # rest) \<le> length s"
    using a length_dropWhile_le [of "\<lambda>c. \<not> is_space c" s] by simp
  ultimately show "(dropWhile is_space rest, s) \<in> measure length"
    by simp
qed

text \<open>\<^verbatim>\<open>parts.join(' ')\<close>.\<close>

fun join :: "string list \<Rightarrow> string" where
  "join [] = []"
| "join [p] = p"
| "join (p # q # ps) = p @ '' '' @ join (q # ps)"

text \<open>\<^verbatim>\<open>s.substring(0, 8)\<close>.\<close>

definition substring8 :: "string \<Rightarrow> string" where
  "substring8 s = take 8 s"

subsection \<open>The built-in Map: keys in insertion order\<close>

text \<open>
  A JavaScript \<^verbatim>\<open>Map\<close> iterates in insertion order; \<^verbatim>\<open>set\<close> on a key that is present
  replaces the value in place, on a new key appends.
\<close>

fun Map_get :: "'k \<Rightarrow> ('k \<times> 'v) list \<Rightarrow> 'v option" where
  "Map_get k [] = None"
| "Map_get k ((k', v) # m) = (if k' = k then Some v else Map_get k m)"

fun Map_set :: "'k \<Rightarrow> 'v \<Rightarrow> ('k \<times> 'v) list \<Rightarrow> ('k \<times> 'v) list" where
  "Map_set k v [] = [(k, v)]"
| "Map_set k v ((k', v') # m) = (if k' = k then (k, v) # m else (k', v') # Map_set k v m)"

fun Map_delete :: "'k \<Rightarrow> ('k \<times> 'v) list \<Rightarrow> ('k \<times> 'v) list" where
  "Map_delete k [] = []"
| "Map_delete k ((k', v) # m) = (if k' = k then Map_delete k m else (k', v) # Map_delete k m)"

section \<open>The state of the handler\<close>

text \<open>
  The metadata object of a torrent is shared: \<^verbatim>\<open>torrentMetadata\<close> and the entry of
  \<^verbatim>\<open>trackedTorrents\<close> hold references to the same object, so the objects live in a
  store and both maps hold addresses.
\<close>

type_synonym ref = nat

record torrent_metadata =
  md_infoHash :: string
  md_channel :: string
  md_threadTs :: string
  md_messageTs :: string
  md_type :: string
  md_destination :: string
  md_name :: string
  md_addedBy :: string
  md_addedByName :: string
  md_addedAt :: string

record tracked =
  progress :: number
  notified :: bool
  metadata :: ref

text \<open>One result of the search provider.\<close>

record search_result =
  sr_title :: string
  sr_size :: "string option"
  sr_seeds :: "string option"
  sr_peers :: "string option"
  sr_provider :: "string option"

text \<open>
  An entry of the \<^verbatim>\<open>searchResults\<close> map. Both kinds of entry are plain objects in one
  map; a field an object does not have is \<open>None\<close>.
\<close>

record session =
  results :: "search_result list option"
  query :: "string option"
  magnetLink :: "string option"
  torrentTitle :: "string option"
  channel :: string
  userId :: string

text \<open>
  \<^verbatim>\<open>searchResults\<close> is created on first use (\<open>None\<close> before). A pending
  \<^verbatim>\<open>setTimeout\<close> callback is its deadline in milliseconds and the key it deletes;
  \<open>now\<close> is the clock, in milliseconds. The store of metadata objects is \<open>objects\<close>.
\<close>

record slack_state =
  isEnabled :: bool
  client :: bool
  objects :: "torrent_metadata list"
  trackedTorrents :: "(string \<times> tracked) list"
  torrentMetadata :: "(string \<times> ref) list"
  searchResults :: "(string \<times> session) list option"
  timers :: "(int \<times> string) list"
  now :: int

definition deref :: "torrent_metadata list \<Rightarrow> ref \<Rightarrow> torrent_metadata option" where
  "deref h r = (if r < length h then Some (h ! r) else None)"

text \<open>
  \<^verbatim>\<open>this.searchResults || new Map()\<close>: the entries every handler reads the map through.
\<close>

definition entries :: "slack_state \<Rightarrow> (string \<times> session) list" where
  "entries s = (case searchResults s of None \<Rightarrow> [] | Some m \<Rightarrow> m)"

section \<open>Calls to the collaborators\<close>

text \<open>
  The download engine, the search provider and the chat transport are outside the
  handler. A call to one of them either throws or returns.
\<close>

datatype 'a outcome = Throws | Returns 'a

record add_result =
  ar_infoHash :: string
  ar_name :: "string option"
  ar_progress :: "number option"
  ar_files :: "nat option"
  ar_status :: "string option"

record move_result =
  mr_status :: "string option"
  mr_movedFiles :: "nat option"
  mr_totalFiles :: "nat option"

datatype move_title =
  FilesMovedSuccessfully | FilesPartiallyMoved | MoveScheduled | TorrentLocationUpdated

datatype move_info =
  FilesMoved "nat option" "nat option"
| FilesMovedWithErrors "nat option" "nat option"
| MovedWhenDownloadFinishes
| LocationUpdatedInMetadata

text \<open>
  What a handler sends out. A reply is kept by its kind and the values interpolated
  into it, not by its wording.
\<close>

datatype reply =
  InvalidMagnetLink
| InvalidType
| AddingTorrent string
| TorrentAddedSuccessfully string "string option" nat number string string string
| ErrorAddingTorrent
| LocationUsage
| NoTorrentFound string
| StorageLocation string string string string string string
| ErrorGettingLocation
| MoveUsage
| MoveNotFound string
| MoveReply move_title string string string string "move_info option"
| ErrorMovingTorrent
| SearchUsage
| Searching string
| NoTorrentsFound string
| SearchResultsFound string "search_result list"
| ErrorSearching
| InvalidSelection nat
| GettingMagnet string
| MagnetFailed string
| MagnetRetrieved string "string option" "string option" string
| AddingFromSearch "string option" "string option" "string option"
| HandlerNotConfigured
| TorrentAdded string string

datatype completion_message =
  Completion string string string string string string

datatype effect =
  Say "string option" reply
| ReactionsAdd string string string
| ReactionsRemove string string string
| PostMessage string string completion_message
| Call_torrentHandler string "string option" "string option"
| Call_torrentMoveHandler string string
| Call_getMagnet search_result
| Call_search string
| ConsoleError

text \<open>
  The collaborators a handler is run with. The three handler fields are \<open>None\<close> until
  the server sets them; \<open>say_ok\<close> tells whether the transport accepts a reply (it throws
  otherwise) and \<open>say_ts\<close> is the timestamp the transport gives the posted message.
  \<^verbatim>\<open>extractTorrentName\<close> and the clock's \<^verbatim>\<open>toISOString\<close> are taken as given functions.
\<close>

record collaborators =
  torrentHandler :: "(string \<Rightarrow> string option \<Rightarrow> string option \<Rightarrow> add_result outcome) option"
  torrentMoveHandler :: "(string \<Rightarrow> string \<Rightarrow> move_result option outcome) option"
  getMagnet :: "search_result \<Rightarrow> string option outcome"
  search :: "string \<Rightarrow> search_result list option outcome"
  say_ok :: "reply \<Rightarrow> bool"
  say_ts :: "reply \<Rightarrow> string"
  extractTorrentName :: "string \<Rightarrow> string"
  toISOString :: "int \<Rightarrow> string"

section \<open>Completion notification\<close>

definition typeEmoji :: "string \<Rightarrow> string" where
  "typeEmoji t = (if t = ''movie'' then ''clapper'' else if t = ''tv'' then ''tv'' else ''package'')"

text \<open>
  \<^verbatim>\<open>sendCompletionNotification\<close>: the calls it attempts. Each reaction call sits in a
  try block of its own, so all four calls are attempted whatever the transport answers;
  the state is not written.
\<close>

definition sendCompletionNotification :: "slack_state \<Rightarrow> string \<Rightarrow> effect list" where
  "sendCompletionNotification s infoHash =
     (if \<not> isEnabled s \<or> \<not> client s then []
      else case Map_get infoHash (trackedTorrents s) of
        None \<Rightarrow> []
      | Some t \<Rightarrow>
          (case deref (objects s) (metadata t) of
             None \<Rightarrow> []
           | Some m \<Rightarrow>
               [ReactionsRemove (md_channel m) (md_messageTs m) ''hourglass_flowing_sand'',
                ReactionsAdd (md_channel m) (md_messageTs m) ''white_check_mark'',
                ReactionsAdd (md_channel m) (md_messageTs m) (typeEmoji (md_type m)),
                PostMessage (md_channel m) (md_threadTs m)
                  (Completion (md_name m) (md_type m) ''100'' (md_destination m)
                     (md_addedBy m) (md_addedAt m))]))"

text \<open>
  \<^verbatim>\<open>updateTorrentProgress\<close>. The second component is \<open>None\<close> when
  \<^verbatim>\<open>sendCompletionNotification\<close> is not called, and the calls it attempts otherwise. The
  tracked entry is an object mutated in place, so the notification already sees the new
  progress and the flag.
\<close>

definition updateTorrentProgress ::
  "slack_state \<Rightarrow> string \<Rightarrow> number \<Rightarrow> slack_state \<times> effect list option" where
  "updateTorrentProgress s infoHash p =
     (if \<not> isEnabled s then (s, None)
      else case Map_get infoHash (trackedTorrents s) of
        None \<Rightarrow> (s, None)
      | Some t \<Rightarrow>
          (let oldProgress = progress t;
               t1 = t\<lparr>progress := p\<rparr>
           in if p \<ge> 100 \<and> oldProgress < 100 \<and> \<not> notified t1
              then (let t2 = t1\<lparr>notified := True\<rparr>;
                        s2 = s\<lparr>trackedTorrents := Map_set infoHash t2 (trackedTorrents s)\<rparr>
                    in (s2, Some (sendCompletionNotification s2 infoHash)))
              else (s\<lparr>trackedTorrents := Map_set infoHash t1 (trackedTorrents s)\<rparr>, None)))"

text \<open>
  One entry of the list passed to \<^verbatim>\<open>monitorProgress\<close>. Its progress is a double, that
  is a rational that \<open>to_double\<close> leaves as it is, or absent.
\<close>

record torrent_report =
  tr_infoHash :: string
  tr_progress :: "number option"

text \<open>
  The loop of \<^verbatim>\<open>monitorProgress\<close>; the second component collects, in call order, the
  notifications that were sent, each with the id it is for.
\<close>

fun monitor_loop ::
  "slack_state \<Rightarrow> torrent_report list \<Rightarrow> slack_state \<times> (string \<times> effect list) list" where
  "monitor_loop s [] = (s, [])"
| "monitor_loop s (torrent # torrents) =
     (let p = Math_round (times_double (num_or (tr_progress torrent) 0) 100);
          (s1, n) = updateTorrentProgress s (tr_infoHash torrent) (of_int p);
          (s2, ns) = monitor_loop s1 torrents
      in (s2, (case n of None \<Rightarrow> [] | Some cs \<Rightarrow> [(tr_infoHash torrent, cs)]) @ ns))"

definition monitorProgress ::
  "slack_state \<Rightarrow> torrent_report list \<Rightarrow> slack_state \<times> (string \<times> effect list) list" where
  "monitorProgress s torrents = (if \<not> isEnabled s then (s, []) else monitor_loop s torrents)"


text \<open>
  The specification's reading of the monitor: integer percentages fed through
  \<^verbatim>\<open>updateProgress\<close> in list order.
\<close>

fun feed_updates ::
  "slack_state \<Rightarrow> (string \<times> int) list \<Rightarrow> slack_state \<times> (string \<times> effect list) list" where
  "feed_updates s [] = (s, [])"
| "feed_updates s ((infoHash, p) # rest) =
     (let (s1, n) = updateTorrentProgress s infoHash (of_int p);
          (s2, ns) = feed_updates s1 rest
      in (s2, (case n of None \<Rightarrow> [] | Some cs \<Rightarrow> [(infoHash, cs)]) @ ns))"

text \<open>The fractional progress of a report, an absent one being 0.\<close>

definition fraction :: "torrent_report \<Rightarrow> number" where
  "fraction t = (case tr_progress t of None \<Rightarrow> 0 | Some x \<Rightarrow> x)"

section \<open>Resolving a hash prefix\<close>

text \<open>
  The loop that \<^verbatim>\<open>/torrent-location\<close> and \<^verbatim>\<open>/torrent-move\<close> both run over
  \<^verbatim>\<open>torrentMetadata.entries()\<close>; its result is the value of \<^verbatim>\<open>matchedHash\<close> after the loop
  (\<open>None\<close> for \<^verbatim>\<open>null\<close>).
\<close>

fun matchedHash :: "string \<Rightarrow> (string \<times> ref) list \<Rightarrow> string option" where
  "matchedHash hash [] = None"
| "matchedHash hash ((infoHash, m) # rest) =
     (if startsWith (toLowerCase infoHash) (toLowerCase hash) then Some infoHash
      else matchedHash hash rest)"

text \<open>
  The specification's match: the prefix is a leading substring of the id, letter case
  ignored.
\<close>

definition prefix_match :: "string \<Rightarrow> string \<Rightarrow> bool" where
  "prefix_match p k = (take (length p) (toLowerCase k) = toLowerCase p)"

section \<open>Slash commands\<close>

record command =
  cmd_text :: string
  cmd_channel_id :: string
  cmd_thread_ts :: "string option"
  cmd_user_id :: string
  cmd_user_name :: string

text \<open>\<^verbatim>\<open>parts[i]\<close>: \<^verbatim>\<open>undefined\<close> beyond the end.\<close>

fun nth_opt :: "'a list \<Rightarrow> nat \<Rightarrow> 'a option" where
  "nth_opt [] n = None"
| "nth_opt (x # xs) 0 = Some x"
| "nth_opt (x # xs) (Suc n) = nth_opt xs n"

definition truthy_opt :: "string option \<Rightarrow> bool" where
  "truthy_opt x = (case x of None \<Rightarrow> False | Some v \<Rightarrow> truthy v)"

text \<open>
  A reply sent inside the \<^verbatim>\<open>try\<close> block of a command: when the transport throws, the
  \<^verbatim>\<open>catch\<close> block sends the command's error reply.
\<close>

definition say_in_try :: "collaborators \<Rightarrow> string option \<Rightarrow> reply \<Rightarrow> reply \<Rightarrow> effect list" where
  "say_in_try c th r err = (if say_ok c r then [Say th r] else [Say th r, ConsoleError, Say th err])"

definition isValidMagnetLink :: "string \<Rightarrow> bool" where
  "isValidMagnetLink link =
     (truthy link \<and> startsWith (trim link) ''magnet:?'' \<and> includes_str link ''xt=urn:btih:'')"

text \<open>The destination a job is registered with when the command names none.\<close>

definition default_destination :: "string option \<Rightarrow> string" where
  "default_destination torrentType =
     (if torrentType = Some ''movie'' then ''/app/downloads/movies''
      else if torrentType = Some ''tv'' then ''/app/downloads/tv''
      else ''/downloads'')"

definition locationText :: "string \<Rightarrow> string option \<Rightarrow> string" where
  "locationText destination torrentType =
     (if truthy destination then ''Custom: '' @ destination
      else if torrentType = Some ''movie'' then ''Movies (default)''
      else if torrentType = Some ''tv'' then ''TV Shows (default)''
      else ''Downloads (default)'')"

text \<open>
  The two \<^verbatim>\<open>set\<close> calls of \<^verbatim>\<open>/torrent\<close>: one fresh metadata object, referred to from
  both maps.
\<close>

definition register :: "string \<Rightarrow> torrent_metadata \<Rightarrow> number \<Rightarrow> slack_state \<Rightarrow> slack_state" where
  "register infoHash md p s =
     (let r = length (objects s)
      in s\<lparr>objects := objects s @ [md],
            torrentMetadata := Map_set infoHash r (torrentMetadata s),
            trackedTorrents :=
              Map_set infoHash \<lparr>progress = p, notified = False, metadata = r\<rparr> (trackedTorrents s)\<rparr>)"

text \<open>
  The \<^verbatim>\<open>catch\<close> block of \<^verbatim>\<open>/torrent\<close>. Its reaction call names \<^verbatim>\<open>initialMsg\<close>, a
  constant of the \<^verbatim>\<open>try\<close> block that is out of scope here, so building the argument
  throws and only the inner \<^verbatim>\<open>catch\<close> logs; then the error reply is sent.
\<close>

definition torrent_catch :: "string option \<Rightarrow> effect list" where
  "torrent_catch th = [ConsoleError, ConsoleError, Say th ErrorAddingTorrent]"

text \<open>\<^verbatim>\<open>/torrent <magnet-link> [movie|tv] [destination]\<close>.\<close>

definition torrent_command ::
  "collaborators \<Rightarrow> slack_state \<Rightarrow> command \<Rightarrow> slack_state \<times> effect list" where
  "torrent_command c s cmd =
     (let parts = split_ws (trim (cmd_text cmd));
          magnetLink = nth_opt parts 0;
          torrentType = map_option toLowerCase (nth_opt parts 1);
          destination = join (drop 2 parts);
          th = cmd_thread_ts cmd
      in case magnetLink of
           None \<Rightarrow> (s, Say th InvalidMagnetLink # (if say_ok c InvalidMagnetLink then [] else torrent_catch th))
         | Some link \<Rightarrow>
             if \<not> isValidMagnetLink link
             then (s, Say th InvalidMagnetLink # (if say_ok c InvalidMagnetLink then [] else torrent_catch th))
             else if truthy_opt torrentType \<and> torrentType \<noteq> Some ''movie'' \<and> torrentType \<noteq> Some ''tv''
             then (s, Say th InvalidType # (if say_ok c InvalidType then [] else torrent_catch th))
             else
               (let torrentName = extractTorrentName c link;
                    r1 = AddingTorrent torrentName
                in if \<not> say_ok c r1 then (s, Say th r1 # torrent_catch th)
                   else case torrentHandler c of
                     None \<Rightarrow> (s, Say th r1 # torrent_catch th)
                   | Some handler \<Rightarrow>
                       (case handler link torrentType (Some destination) of
                          Throws \<Rightarrow>
                            (s, [Say th r1, Call_torrentHandler link torrentType (Some destination)]
                                @ torrent_catch th)
                        | Returns result \<Rightarrow>
                            (let md = \<lparr>md_infoHash = ar_infoHash result,
                                       md_channel = cmd_channel_id cmd,
                                       md_threadTs = str_or (cmd_thread_ts cmd) (say_ts c r1),
                                       md_messageTs = say_ts c r1,
                                       md_type = str_or torrentType ''unknown'',
                                       md_destination =
                                         (if truthy destination then destination
                                          else default_destination torrentType),
                                       md_name = str_or (ar_name result) torrentName,
                                       md_addedBy = cmd_user_id cmd,
                                       md_addedByName = cmd_user_name cmd,
                                       md_addedAt = toISOString c (now s)\<rparr>;
                                 s1 = register (ar_infoHash result) md
                                        (num_or (ar_progress result) 0) s;
                                 r2 = TorrentAddedSuccessfully (str_or (ar_name result) torrentName)
                                        torrentType
                                        (case ar_files result of None \<Rightarrow> 0 | Some n \<Rightarrow> n)
                                        (num_or (ar_progress result) 0)
                                        (locationText destination torrentType)
                                        (str_or (ar_status result) ''Starting...'')
                                        (substring8 (ar_infoHash result))
                             in (s1,
                                 [Say th r1, Call_torrentHandler link torrentType (Some destination),
                                  ReactionsAdd (cmd_channel_id cmd) (say_ts c r1) ''hourglass_flowing_sand'',
                                  Say th r2]
                                 @ (if say_ok c r2 then [] else torrent_catch th))))))"

text \<open>\<^verbatim>\<open>/torrent-location <hash>\<close>.\<close>

definition torrent_location ::
  "collaborators \<Rightarrow> slack_state \<Rightarrow> command \<Rightarrow> slack_state \<times> effect list" where
  "torrent_location c s cmd =
     (let hash = trim (cmd_text cmd);
          th = cmd_thread_ts cmd
      in if \<not> truthy hash then (s, say_in_try c th LocationUsage ErrorGettingLocation)
         else case matchedHash hash (torrentMetadata s) of
           None \<Rightarrow> (s, say_in_try c th (NoTorrentFound hash) ErrorGettingLocation)
         | Some k \<Rightarrow>
             if \<not> truthy k then (s, say_in_try c th (NoTorrentFound hash) ErrorGettingLocation)
             else case Map_get k (torrentMetadata s) of
               None \<Rightarrow> (s, [ConsoleError, Say th ErrorGettingLocation])
             | Some r \<Rightarrow>
                 (case deref (objects s) r of
                    None \<Rightarrow> (s, [ConsoleError, Say th ErrorGettingLocation])
                  | Some md \<Rightarrow>
                      (s, say_in_try c th
                            (StorageLocation (md_name md) (md_type md) (md_destination md) k
                               (md_addedBy md) (md_addedAt md))
                            ErrorGettingLocation)))"

text \<open>
  \<^verbatim>\<open>/torrent-move <hash> <new-destination>\<close>, in two parts. The first part runs up to
  the point where the handler would await the move collaborator: the state it returns
  is the state at that point. It ends with the reply of a rejected command, with
  \<open>Inl None\<close> where reading the metadata would throw, or with the values of the local
  variables, which go to the second part.
\<close>

record move_locals =
  mv_matchedHash :: string
  mv_name :: string
  mv_oldDestination :: string
  mv_newDestination :: string

definition torrent_move_begin ::
  "slack_state \<Rightarrow> command \<Rightarrow> slack_state \<times> (reply option + move_locals)" where
  "torrent_move_begin s cmd =
     (let parts = split_ws (trim (cmd_text cmd));
          hash = nth_opt parts 0;
          newDestination = join (drop 1 parts)
      in case hash of
           None \<Rightarrow> (s, Inl (Some MoveUsage))
         | Some h \<Rightarrow>
             if \<not> truthy h \<or> \<not> truthy newDestination then (s, Inl (Some MoveUsage))
             else case matchedHash h (torrentMetadata s) of
               None \<Rightarrow> (s, Inl (Some (MoveNotFound h)))
             | Some k \<Rightarrow>
                 if \<not> truthy k then (s, Inl (Some (MoveNotFound h)))
                 else case Map_get k (torrentMetadata s) of
                   None \<Rightarrow> (s, Inl None)
                 | Some r \<Rightarrow>
                     (case deref (objects s) r of
                        None \<Rightarrow> (s, Inl None)
                      | Some md \<Rightarrow>
                          (s\<lparr>objects := (objects s)[r := md\<lparr>md_destination := newDestination\<rparr>],
                             torrentMetadata := Map_set k r (torrentMetadata s)\<rparr>,
                           Inr \<lparr>mv_matchedHash = k, mv_name = md_name md,
                                mv_oldDestination = md_destination md,
                                mv_newDestination = newDestination\<rparr>)))"

definition truthy_nat :: "nat option \<Rightarrow> bool" where
  "truthy_nat x = (case x of None \<Rightarrow> False | Some n \<Rightarrow> n \<noteq> 0)"

text \<open>\<^verbatim>\<open>moveResult?.status\<close>.\<close>

definition status_of :: "move_result option \<Rightarrow> string option" where
  "status_of moveResult = (case moveResult of None \<Rightarrow> None | Some m \<Rightarrow> mr_status m)"

definition move_title_of :: "move_result option \<Rightarrow> move_title" where
  "move_title_of moveResult =
     (if status_of moveResult = Some ''complete'' then FilesMovedSuccessfully
      else if status_of moveResult = Some ''partial'' then FilesPartiallyMoved
      else if status_of moveResult = Some ''scheduled'' then MoveScheduled
      else TorrentLocationUpdated)"

definition move_info_of :: "move_result option \<Rightarrow> move_info option" where
  "move_info_of moveResult =
     (case moveResult of
        None \<Rightarrow> Some LocationUpdatedInMetadata
      | Some m \<Rightarrow>
          if mr_status m = Some ''complete'' \<and> truthy_nat (mr_movedFiles m)
          then Some (FilesMoved (mr_movedFiles m) (mr_totalFiles m))
          else if mr_status m = Some ''partial''
          then Some (FilesMovedWithErrors (mr_movedFiles m) (mr_totalFiles m))
          else if mr_status m = Some ''scheduled'' then Some MovedWhenDownloadFinishes
          else None)"

text \<open>The second part: the reply built from the collaborator's answer.\<close>

definition torrent_move_finish :: "move_locals \<Rightarrow> move_result option \<Rightarrow> reply" where
  "torrent_move_finish l moveResult =
     MoveReply (move_title_of moveResult) (mv_name l) (mv_oldDestination l)
       (mv_newDestination l) (substring8 (mv_matchedHash l)) (move_info_of moveResult)"

text \<open>
  The call of the move collaborator: \<^verbatim>\<open>moveResult\<close> stays \<^verbatim>\<open>null\<close> when no collaborator
  is set or when it throws.
\<close>

definition call_mover :: "collaborators \<Rightarrow> move_locals \<Rightarrow> move_result option \<times> effect list" where
  "call_mover c l =
     (case torrentMoveHandler c of
        None \<Rightarrow> (None, [])
      | Some handler \<Rightarrow>
          (case handler (mv_matchedHash l) (mv_newDestination l) of
             Throws \<Rightarrow>
               (None, [Call_torrentMoveHandler (mv_matchedHash l) (mv_newDestination l), ConsoleError])
           | Returns r \<Rightarrow>
               (r, [Call_torrentMoveHandler (mv_matchedHash l) (mv_newDestination l)])))"

definition torrent_move ::
  "collaborators \<Rightarrow> slack_state \<Rightarrow> command \<Rightarrow> slack_state \<times> effect list" where
  "torrent_move c s cmd =
     (case torrent_move_begin s cmd of
        (s1, Inl None) \<Rightarrow> (s1, [ConsoleError, Say (cmd_thread_ts cmd) ErrorMovingTorrent])
      | (s1, Inl (Some r)) \<Rightarrow> (s1, say_in_try c (cmd_thread_ts cmd) r ErrorMovingTorrent)
      | (s1, Inr l) \<Rightarrow>
          (let (moveResult, calls) = call_mover c l
           in (s1, calls @ say_in_try c (cmd_thread_ts cmd) (torrent_move_finish l moveResult)
                       ErrorMovingTorrent)))"

text \<open>
  The destination of a job as a reader finds it through \<^verbatim>\<open>torrentMetadata\<close>, and as
  the completion notification finds it through the entry of \<^verbatim>\<open>trackedTorrents\<close>.
\<close>

definition destination_of :: "slack_state \<Rightarrow> string \<Rightarrow> string option" where
  "destination_of s k =
     (case Map_get k (torrentMetadata s) of
        None \<Rightarrow> None
      | Some r \<Rightarrow> map_option md_destination (deref (objects s) r))"

definition tracked_destination_of :: "slack_state \<Rightarrow> string \<Rightarrow> string option" where
  "tracked_destination_of s k =
     (case Map_get k (trackedTorrents s) of
        None \<Rightarrow> None
      | Some t \<Rightarrow> map_option md_destination (deref (objects s) (metadata t)))"

text \<open>Every reference of \<^verbatim>\<open>torrentMetadata\<close> points to an object of the store.\<close>

definition refs_ok :: "slack_state \<Rightarrow> bool" where
  "refs_ok s = list_all (\<lambda>(k, r). r < length (objects s)) (torrentMetadata s)"

section \<open>The session cache and its timers\<close>

text \<open>
  \<^verbatim>\<open>searchResults.set(key, data)\<close> followed by \<^verbatim>\<open>setTimeout\<close> with a callback that deletes
  the key after \<open>ttl\<close> milliseconds. Both session kinds are created this way.
\<close>

definition create_session :: "string \<Rightarrow> session \<Rightarrow> int \<Rightarrow> slack_state \<Rightarrow> slack_state" where
  "create_session key data ttl s =
     s\<lparr>searchResults := Some (Map_set key data (entries s)),
        timers := timers s @ [(now s + ttl, key)]\<rparr>"

text \<open>The callback of a timer: \<^verbatim>\<open>this.searchResults.delete(key)\<close>.\<close>

definition fire :: "string \<Rightarrow> slack_state \<Rightarrow> slack_state" where
  "fire key s = s\<lparr>searchResults := map_option (Map_delete key) (searchResults s)\<rparr>"

text \<open>
  The clock moves on by \<open>d\<close> milliseconds: the callbacks whose deadline has come run, in
  deadline order (those with one deadline in the order they were set), and leave the
  timer list. A callback is taken to run at its deadline, with no scheduling delay.
\<close>

definition advance :: "int \<Rightarrow> slack_state \<Rightarrow> slack_state" where
  "advance d s =
     (let t = now s + d;
          due = sort_key fst (filter (\<lambda>(deadline, key). deadline \<le> t) (timers s))
      in (fold (\<lambda>(deadline, key). fire key) due s)
           \<lparr>timers := filter (\<lambda>(deadline, key). \<not> deadline \<le> t) (timers s), now := t\<rparr>)"

text \<open>\<^verbatim>\<open>searchResults.get(key)\<close> as a handler reads it.\<close>

definition lookup :: "string \<Rightarrow> slack_state \<Rightarrow> session option" where
  "lookup key s = Map_get key (entries s)"

text \<open>
  What can happen to the cache between the creation of a session and a later read: time
  passes, another session is created, or a message handler merely makes sure the map
  exists.
\<close>

datatype cache_event = Tick int | Create string session int | Touch

fun cache_step :: "slack_state \<Rightarrow> cache_event \<Rightarrow> slack_state" where
  "cache_step s (Tick d) = advance d s"
| "cache_step s (Create key data ttl) = create_session key data ttl s"
| "cache_step s Touch = s\<lparr>searchResults := Some (entries s)\<rparr>"

fun elapsed :: "cache_event list \<Rightarrow> int" where
  "elapsed [] = 0"
| "elapsed (Tick d # es) = d + elapsed es"
| "elapsed (e # es) = elapsed es"

fun creates :: "string \<Rightarrow> cache_event \<Rightarrow> bool" where
  "creates k (Create key data ttl) = (key = k)"
| "creates k e = False"

text \<open>Time does not run backwards.\<close>

fun forward :: "cache_event \<Rightarrow> bool" where
  "forward (Tick d) = (0 \<le> d)"
| "forward e = True"

text \<open>
  The life of the session stored under \<open>k\<close> with deadline \<open>D\<close>: before the deadline the
  session is in the map and the timers for \<open>k\<close> are due at \<open>D\<close>, one of them pending; from
  the deadline on the key is neither in the map nor awaited by a timer.
\<close>

definition live_until :: "string \<Rightarrow> session \<Rightarrow> int \<Rightarrow> slack_state \<Rightarrow> bool" where
  "live_until k data D st =
     (if now st < D
      then lookup k st = Some data \<and> (D, k) \<in> set (timers st) \<and>
           list_all (\<lambda>(deadline, key). key = k \<longrightarrow> deadline = D) (timers st)
      else lookup k st = None \<and> list_all (\<lambda>(deadline, key). key \<noteq> k) (timers st))"

text \<open>The cache of \<open>st2\<close> is the cache of \<open>st1\<close> with everything about the key \<open>k\<close> left out.\<close>

definition without_key :: "string \<Rightarrow> slack_state \<Rightarrow> slack_state \<Rightarrow> bool" where
  "without_key k st1 st2 =
     (now st2 = now st1 \<and>
      entries st2 = filter (\<lambda>(key, data). key \<noteq> k) (entries st1) \<and>
      timers st2 = filter (\<lambda>(deadline, key). key \<noteq> k) (timers st1))"

section \<open>\<^verbatim>\<open>/torrent-search\<close>\<close>

definition torrent_search ::
  "collaborators \<Rightarrow> slack_state \<Rightarrow> command \<Rightarrow> slack_state \<times> effect list" where
  "torrent_search c s cmd =
     (let q = trim (cmd_text cmd);
          th = cmd_thread_ts cmd
      in if \<not> truthy q then (s, say_in_try c th SearchUsage ErrorSearching)
         else if \<not> say_ok c (Searching q) then (s, [Say th (Searching q), ConsoleError, Say th ErrorSearching])
         else case search c q of
           Throws \<Rightarrow> (s, [Say th (Searching q), Call_search q, ConsoleError, Say th ErrorSearching])
         | Returns found \<Rightarrow>
             (case found of
                None \<Rightarrow>
                  (s, [Say th (Searching q), Call_search q]
                      @ say_in_try c th (NoTorrentsFound q) ErrorSearching)
              | Some rs \<Rightarrow>
                  if length rs = 0
                  then (s, [Say th (Searching q), Call_search q]
                           @ say_in_try c th (NoTorrentsFound q) ErrorSearching)
                  else if \<not> say_ok c (SearchResultsFound q rs)
                  then (s, [Say th (Searching q), Call_search q, Say th (SearchResultsFound q rs),
                            ConsoleError, Say th ErrorSearching])
                  else
                    (create_session (say_ts c (SearchResultsFound q rs))
                       \<lparr>results = Some rs, query = Some q, magnetLink = None,
                        torrentTitle = None, channel = cmd_channel_id cmd,
                        userId = cmd_user_id cmd\<rparr>
                       (10 * 60 * 1000) s,
                     [Say th (Searching q), Call_search q, Say th (SearchResultsFound q rs)])))"

section \<open>Message listeners\<close>

record message =
  msg_text :: string
  msg_bot_id :: "string option"
  msg_thread_ts :: "string option"
  msg_ts :: string
  msg_channel :: string
  msg_user :: string

subsection \<open>The number reply\<close>

definition is_digit :: "nat \<Rightarrow> nat \<Rightarrow> char \<Rightarrow> bool" where
  "is_digit lo hi ch = (48 + lo \<le> (of_char ch :: nat) \<and> (of_char ch :: nat) \<le> 48 + hi)"

text \<open>The pattern \<^verbatim>\<open>/^[1-9][0-9]?$/\<close>.\<close>

fun number_pattern :: "string \<Rightarrow> bool" where
  "number_pattern [a] = is_digit 1 9 a"
| "number_pattern [a, b] = (is_digit 1 9 a \<and> is_digit 0 9 b)"
| "number_pattern t = False"

text \<open>\<^verbatim>\<open>parseInt\<close> on a string of decimal digits.\<close>

definition parseInt :: "string \<Rightarrow> nat" where
  "parseInt t = foldl (\<lambda>n ch. 10 * n + ((of_char ch :: nat) - 48)) 0 t"

text \<open>The body of the listener.\<close>

definition number_reply ::
  "collaborators \<Rightarrow> slack_state \<Rightarrow> message \<Rightarrow> slack_state \<times> effect list" where
  "number_reply c s m =
     (if truthy_opt (msg_bot_id m) then (s, [])
      else case msg_thread_ts m of
        None \<Rightarrow> (s, [])
      | Some thread_ts \<Rightarrow>
          if \<not> truthy thread_ts then (s, [])
          else
            (let s1 = s\<lparr>searchResults := Some (entries s)\<rparr>;
                 th = Some thread_ts
             in case Map_get thread_ts (entries s) of
               None \<Rightarrow> (s1, [])
             | Some searchData \<Rightarrow>
                 (let selectedIndex = int (parseInt (trim (msg_text m))) - 1
                  in case results searchData of
                    None \<Rightarrow> (s1, [ConsoleError])
                  | Some rs \<Rightarrow>
                      if selectedIndex < 0 \<or> selectedIndex \<ge> int (length rs)
                      then (s1, Say th (InvalidSelection (length rs))
                                # (if say_ok c (InvalidSelection (length rs)) then [] else [ConsoleError]))
                      else
                        (let selectedTorrent = rs ! nat selectedIndex;
                             r1 = GettingMagnet (sr_title selectedTorrent)
                         in if \<not> say_ok c r1 then (s1, [Say th r1, ConsoleError])
                            else case getMagnet c selectedTorrent of
                              Throws \<Rightarrow> (s1, [Say th r1, Call_getMagnet selectedTorrent, ConsoleError])
                            | Returns link \<Rightarrow>
                                (case link of
                                   None \<Rightarrow>
                                     (s1, [Say th r1, Call_getMagnet selectedTorrent,
                                           Say th (MagnetFailed (sr_title selectedTorrent))]
                                          @ (if say_ok c (MagnetFailed (sr_title selectedTorrent))
                                             then [] else [ConsoleError]))
                                 | Some l \<Rightarrow>
                                     if \<not> truthy l
                                     then (s1, [Say th r1, Call_getMagnet selectedTorrent,
                                                Say th (MagnetFailed (sr_title selectedTorrent))]
                                               @ (if say_ok c (MagnetFailed (sr_title selectedTorrent))
                                                  then [] else [ConsoleError]))
                                     else
                                       (let r2 = MagnetRetrieved (sr_title selectedTorrent)
                                                   (sr_size selectedTorrent) (sr_seeds selectedTorrent)
                                                   (take 60 l)
                                        in if \<not> say_ok c r2
                                           then (s1, [Say th r1, Call_getMagnet selectedTorrent,
                                                      Say th r2, ConsoleError])
                                           else
                                             (create_session (msg_ts m)
                                                \<lparr>results = None, query = None, magnetLink = Some l,
                                                 torrentTitle = Some (sr_title selectedTorrent),
                                                 channel = msg_channel m, userId = msg_user m\<rparr>
                                                (5 * 60 * 1000) s1,
                                              [Say th r1, Call_getMagnet selectedTorrent,
                                               Say th r2])))))))"

text \<open>The listener runs its body on the messages whose text matches its pattern.\<close>

definition number_listener ::
  "collaborators \<Rightarrow> slack_state \<Rightarrow> message \<Rightarrow> slack_state \<times> effect list" where
  "number_listener c s m = (if number_pattern (msg_text m) then number_reply c s m else (s, []))"

subsection \<open>The add reply\<close>

text \<open>A literal of a pattern with the \<^verbatim>\<open>i\<close> flag, at the start of the text.\<close>

definition istarts :: "string \<Rightarrow> string \<Rightarrow> bool" where
  "istarts t lit = (toLowerCase (take (length lit) t) = lit)"

text \<open>\<^verbatim>\<open>(movie|tv|general)\<close> at the start of the text: the text matched and the rest.\<close>

definition keyword_at :: "string \<Rightarrow> (string \<times> string) option" where
  "keyword_at r =
     (if istarts r ''movie'' then Some (take 5 r, drop 5 r)
      else if istarts r ''tv'' then Some (take 2 r, drop 2 r)
      else if istarts r ''general'' then Some (take 7 r, drop 7 r)
      else None)"

text \<open>
  \<^verbatim>\<open>\s+(.+)$\<close> (or \<^verbatim>\<open>\s+.*$\<close> when \<open>e\<close> holds) with the white space taking \<open>k\<close>
  characters, then fewer down to one: the first length that lets the rest of the text,
  free of line terminators, follow wins. The result is the text of the inner group.
\<close>

fun tail_ws :: "bool \<Rightarrow> nat \<Rightarrow> string \<Rightarrow> string option" where
  "tail_ws e 0 r = None"
| "tail_ws e (Suc k) r =
     (let body = drop (Suc k) r
      in if (e \<or> body \<noteq> []) \<and> list_all (\<lambda>ch. \<not> is_line_terminator ch) body then Some body
         else tail_ws e k r)"

text \<open>
  The optional last group and the end of the text: \<open>None\<close> is no match, \<open>Some None\<close> a
  match without the group.
\<close>

definition tail_match :: "bool \<Rightarrow> string \<Rightarrow> string option option" where
  "tail_match e r =
     (case tail_ws e (length (takeWhile is_space r)) r of
        Some body \<Rightarrow> Some (Some body)
      | None \<Rightarrow> if r = [] then Some None else None)"

text \<open>
  \<^verbatim>\<open>/^add(\s+(movie|tv|general))?(\s+(.+))?$/i\<close>, and with \<open>e\<close> the listener's own
  \<^verbatim>\<open>/^add(\s+(movie|tv|general))?(\s+.*)?$/i\<close>: groups 2 and 4 of the match. The group
  with the keyword is tried first; when the rest does not match after it, the match is
  tried again without it.
\<close>

definition add_match :: "bool \<Rightarrow> string \<Rightarrow> (string option \<times> string option) option" where
  "add_match e t =
     (if \<not> istarts t ''add'' then None
      else
        (let r = drop 3 t;
             without = map_option (Pair None) (tail_match e r)
         in if takeWhile is_space r = [] then without
            else case keyword_at (dropWhile is_space r) of
              None \<Rightarrow> without
            | Some (kw, r2) \<Rightarrow>
                (case tail_match e r2 of
                   Some g \<Rightarrow> Some (Some kw, g)
                 | None \<Rightarrow> without)))"

text \<open>
  The scan of the add reply: the first entry, in the order of the map, that has a
  truthy \<^verbatim>\<open>magnetLink\<close> and the channel of the message.
\<close>

fun magnetData :: "string \<Rightarrow> (string \<times> session) list \<Rightarrow> session option" where
  "magnetData ch [] = None"
| "magnetData ch ((ts, data) # rest) =
     (if truthy_opt (magnetLink data) \<and> channel data = ch then Some data
      else magnetData ch rest)"

definition add_reply ::
  "collaborators \<Rightarrow> slack_state \<Rightarrow> message \<Rightarrow> slack_state \<times> effect list" where
  "add_reply c s m =
     (if truthy_opt (msg_bot_id m) then (s, [])
      else if \<not> truthy_opt (msg_thread_ts m) then (s, [])
      else
        (let s1 = s\<lparr>searchResults := Some (entries s)\<rparr>;
             th = msg_thread_ts m
         in case magnetData (msg_channel m) (entries s) of
           None \<Rightarrow> (s1, [])
         | Some d \<Rightarrow>
             (case add_match False (msg_text m) of
                None \<Rightarrow> (s1, [ConsoleError])
              | Some (g2, g4) \<Rightarrow>
                  (let type = map_option toLowerCase g2;
                       destination = map_option trim g4;
                       r1 = AddingFromSearch (torrentTitle d) type destination
                   in if \<not> say_ok c r1 then (s1, [Say th r1, ConsoleError])
                      else case torrentHandler c of
                        None \<Rightarrow>
                          (s1, [Say th r1, Say th HandlerNotConfigured]
                               @ (if say_ok c HandlerNotConfigured then [] else [ConsoleError]))
                      | Some handler \<Rightarrow>
                          (case magnetLink d of
                             None \<Rightarrow> (s1, [Say th r1, ConsoleError])
                           | Some link \<Rightarrow>
                               (case handler link type destination of
                                  Throws \<Rightarrow>
                                    (s1, [Say th r1, Call_torrentHandler link type destination,
                                          ConsoleError])
                                | Returns result \<Rightarrow>
                                    (let r2 = TorrentAdded
                                                (str_or (ar_name result)
                                                   (case torrentTitle d of None \<Rightarrow> [] | Some t \<Rightarrow> t))
                                                (substring8 (ar_infoHash result))
                                     in (s1, [Say th r1, Call_torrentHandler link type destination,
                                              Say th r2]
                                             @ (if say_ok c r2 then [] else [ConsoleError])))))))))"

definition add_listener ::
  "collaborators \<Rightarrow> slack_state \<Rightarrow> message \<Rightarrow> slack_state \<times> effect list" where
  "add_listener c s m =
     (if add_match True (msg_text m) \<noteq> None then add_reply c s m else (s, []))"

section \<open>Scenarios\<close>

text \<open>The state the constructor leaves, and the state once \<^verbatim>\<open>initialize\<close> has succeeded.\<close>

definition constructed :: slack_state where
  "constructed =
     \<lparr>isEnabled = False, client = False, objects = [], trackedTorrents = [],
      torrentMetadata = [], searchResults = None, timers = [], now = 0\<rparr>"

definition started :: slack_state where
  "started = constructed\<lparr>isEnabled := True, client := True\<rparr>"

text \<open>
  Collaborators for the scenarios: an engine that accepts every link under one hash, a
  provider with three results, a transport that accepts every reply.
\<close>

definition three_results :: "search_result list" where
  "three_results =
     [\<lparr>sr_title = ''Inception 1080p'', sr_size = None, sr_seeds = None, sr_peers = None,
       sr_provider = None\<rparr>,
      \<lparr>sr_title = ''Inception 720p'', sr_size = None, sr_seeds = None, sr_peers = None,
       sr_provider = None\<rparr>,
      \<lparr>sr_title = ''Inception 480p'', sr_size = None, sr_seeds = None, sr_peers = None,
       sr_provider = None\<rparr>]"

definition engine :: collaborators where
  "engine =
     \<lparr>torrentHandler =
        Some (\<lambda>link t d. Returns \<lparr>ar_infoHash = ''abc123'', ar_name = None, ar_progress = None,
                                  ar_files = None, ar_status = None\<rparr>),
      torrentMoveHandler = None,
      getMagnet = (\<lambda>r. Returns (Some ''magnet:?xt=urn:btih:abc123'')),
      search = (\<lambda>q. Returns (Some three_results)),
      say_ok = (\<lambda>r. True),
      say_ts = (\<lambda>r. ''100.1''),
      extractTorrentName = (\<lambda>l. ''Torrent abc123''),
      toISOString = (\<lambda>t. ''1970-01-01T00:00:00.000Z'')\<rparr>"

definition add_movie :: command where
  "add_movie =
     \<lparr>cmd_text = ''magnet:?xt=urn:btih:abc123 movie'', cmd_channel_id = ''C1'',
      cmd_thread_ts = None, cmd_user_id = ''U1'', cmd_user_name = ''ann''\<rparr>"

text \<open>The state after \<^verbatim>\<open>/torrent magnet:?xt=urn:btih:abc123 movie\<close>.\<close>

definition one_job :: slack_state where
  "one_job = fst (torrent_command engine started add_movie)"

text \<open>A progress report with the double nearest to 0.995.\<close>

definition nearly_done :: torrent_report where
  "nearly_done =
     \<lparr>tr_infoHash = ''abc123'', tr_progress = Some (8962163258467287 / 9007199254740992)\<rparr>"

definition search_inception :: command where
  "search_inception =
     \<lparr>cmd_text = ''Inception'', cmd_channel_id = ''C1'', cmd_thread_ts = None,
      cmd_user_id = ''U1'', cmd_user_name = ''ann''\<rparr>"

text \<open>The state after \<^verbatim>\<open>/torrent-search Inception\<close>: the listing is message \<open>100.1\<close>.\<close>

definition results_shown :: slack_state where
  "results_shown = fst (torrent_search engine started search_inception)"

text \<open>The reply \<open>2\<close> in the thread of the listing, and the state after it.\<close>

definition reply_2 :: message where
  "reply_2 =
     \<lparr>msg_text = ''2'', msg_bot_id = None, msg_thread_ts = Some ''100.1'', msg_ts = ''200.2'',
      msg_channel = ''C1'', msg_user = ''U1''\<rparr>"

definition magnet_ready :: slack_state where
  "magnet_ready = fst (number_listener engine results_shown reply_2)"

text \<open>
  The reply \<open>2\<close> delivered a second time after one minute, and the state at 300000,
  when the timer of the first delivery has run.
\<close>

definition twice_delivered :: slack_state where
  "twice_delivered =
     advance 240000 (fst (number_listener engine (advance 60000 magnet_ready) reply_2))"

definition reply_add :: message where
  "reply_add =
     \<lparr>msg_text = ''add tv /custom'', msg_bot_id = None, msg_thread_ts = Some ''100.1'',
      msg_ts = ''300.3'', msg_channel = ''C1'', msg_user = ''U1''\<rparr>"

definition move_abc1 :: command where
  "move_abc1 =
     \<lparr>cmd_text = ''ABC1 /new/path'', cmd_channel_id = ''C1'', cmd_thread_ts = None,
      cmd_user_id = ''U1'', cmd_user_name = ''ann''\<rparr>"

section \<open>Properties of the maps\<close>

lemma Map_get_set_same: "Map_get k (Map_set k v m) = Some v"
  by (induction m) auto

lemma Map_get_set_other: "k' \<noteq> k \<Longrightarrow> Map_get k' (Map_set k v m) = Map_get k' m"
  by (induction m) auto

lemma Map_set_same_value: "Map_get k m = Some v \<Longrightarrow> Map_set k v m = m"
proof (induction m)
  case Nil
  then show ?case by simp
next
  case (Cons e m)
  obtain k' v' where e: "e = (k', v')" by (cases e)
  show ?case using Cons by (auto simp add: e split: if_splits)
qed

lemma Map_set_keys:
  "map fst (Map_set k v m) = (if k \<in> set (map fst m) then map fst m else map fst m @ [k])"
proof (induction m)
  case Nil
  then show ?case by simp
next
  case (Cons e m)
  obtain k' r where e: "e = (k', r)" by (cases e)
  show ?case using Cons.IH by (cases "k' = k") (simp_all add: e)
qed

lemma Map_delete_filter: "Map_delete k m = filter (\<lambda>(k', v). k' \<noteq> k) m"
  by (induction m) auto

lemma Map_get_None_iff: "(Map_get k m = None) = (k \<notin> fst ` set m)"
proof (induction m)
  case Nil
  then show ?case by simp
next
  case (Cons e m)
  obtain k' v where e: "e = (k', v)" by (cases e)
  show ?case using Cons.IH by (cases "k' = k") (simp_all add: e)
qed

lemma Map_get_filter:
  "Map_get k (filter (\<lambda>(k', v). P k') m) = (if P k then Map_get k m else None)"
  by (induction m) auto

lemma Map_set_filter:
  "k' \<noteq> k \<Longrightarrow>
   Map_set k' v (filter (\<lambda>(x, y). x \<noteq> k) m) = filter (\<lambda>(x, y). x \<noteq> k) (Map_set k' v m)"
  by (induction m) auto

lemma filter_Map_set_new:
  "k \<notin> fst ` set m \<Longrightarrow> filter (\<lambda>(key, d). key \<noteq> k) (Map_set k data m) = m"
proof (induction m)
  case Nil
  then show ?case by simp
next
  case (Cons e m)
  obtain k' v where e: "e = (k', v)" by (cases e)
  from Cons.prems have ne: "k' \<noteq> k" and rest: "k \<notin> fst ` set m" by (auto simp add: e)
  show ?case using Cons.IH [OF rest] ne by (simp add: e)
qed

lemma filter_all_kept: "list_all P xs \<Longrightarrow> filter P xs = xs"
  by (induction xs) auto

lemma list_all_Map_set: "P (k, v) \<Longrightarrow> list_all P m \<Longrightarrow> list_all P (Map_set k v m)"
  by (induction m) auto

section \<open>Progress updates and the completion notification\<close>




lemma utp_idle:
  "\<not> isEnabled s \<or> Map_get h (trackedTorrents s) = None \<Longrightarrow> updateTorrentProgress s h p = (s, None)"
  by (auto simp add: updateTorrentProgress_def)









text \<open>
  C4. For an id that \<^verbatim>\<open>trackedTorrents\<close> does not hold, \<^verbatim>\<open>updateTorrentProgress\<close> returns
  the state it was given, whatever the progress value, and does not call
  \<^verbatim>\<open>sendCompletionNotification\<close>.
\<close>

theorem update_unknown_id_noop:
  "Map_get infoHash (trackedTorrents s) = None \<Longrightarrow> updateTorrentProgress s infoHash p = (s, None)"
  by (simp add: updateTorrentProgress_def)

theorem update_unknown_id_noop_witness:
  "Map_get ''ffff'' (trackedTorrents one_job) = None \<and>
   updateTorrentProgress one_job ''ffff'' 100 = (one_job, None)"
proof -
  have h: "Map_get ''ffff'' (trackedTorrents one_job) = None" by code_simp
  from update_unknown_id_noop [OF h] h show ?thesis by simp
qed

lemma Math_round_near: "\<bar>of_int (Math_round y) - y\<bar> \<le> 1 / 2"
  unfolding Math_round_def by linarith

text \<open>The rounding of a product to a double moves it by at most half the spacing.\<close>

lemma round_half_even_near: "\<bar>of_int (round_half_even w) - w\<bar> \<le> 1 / 2"
proof -
  have f: "of_int \<lfloor>w\<rfloor> \<le> w" "w < of_int \<lfloor>w\<rfloor> + 1" by linarith+
  consider "w - of_int \<lfloor>w\<rfloor> < 1 / 2" | "1 / 2 < w - of_int \<lfloor>w\<rfloor>" | "w - of_int \<lfloor>w\<rfloor> = 1 / 2"
    by linarith
  then show ?thesis
  proof cases
    case 1
    then have "round_half_even w = \<lfloor>w\<rfloor>" by (simp add: round_half_even_def Let_def)
    with 1 f show ?thesis by simp
  next
    case 2
    then have "round_half_even w = \<lfloor>w\<rfloor> + 1" by (simp add: round_half_even_def Let_def)
    with 2 f show ?thesis by simp
  next
    case 3
    then have "round_half_even w = \<lfloor>w\<rfloor> \<or> round_half_even w = \<lfloor>w\<rfloor> + 1"
      by (simp add: round_half_even_def Let_def)
    with 3 show ?thesis by auto
  qed
qed

lemma pow2_powi: "pow2 e = 2 powi e"
proof (induction e rule: pow2.induct)
  case (1 e)
  show ?case
  proof (cases "e = 0")
    case True
    then show ?thesis by (subst pow2.simps) simp
  next
    case False
    show ?thesis
    proof (cases "0 < e")
      case True
      have "pow2 e = 2 * pow2 (e - 1)" using True False by (subst pow2.simps) simp
      also have "\<dots> = 2 * 2 powi (e - 1)" using "1.IH"(1) [OF False True] by simp
      also have "\<dots> = 2 powi e"
        using power_int_add_1 [of "2::rat" "e - 1"] by simp
      finally show ?thesis .
    next
      case neg: False
      have "pow2 e = pow2 (e + 1) / 2" using neg False by (subst pow2.simps) simp
      also have "\<dots> = 2 powi (e + 1) / 2" using "1.IH"(2) [OF False neg] by simp
      also have "\<dots> = 2 powi e"
        using power_int_add_1 [of "2::rat" e] by simp
      finally show ?thesis .
    qed
  qed
qed

lemma pow2_pos: "0 < pow2 e"
  by (simp add: pow2_powi)

lemma pow2_mono: "a \<le> b \<Longrightarrow> pow2 a \<le> pow2 b"
  by (simp add: pow2_powi power_int_increasing)

lemma pow2_strict_mono: "a < b \<Longrightarrow> pow2 a < pow2 b"
  by (simp add: pow2_powi power_int_strict_increasing)

lemma pow2_nat: "0 \<le> e \<Longrightarrow> pow2 e = of_int (2 ^ nat e)"
  by (simp add: pow2_powi power_int_def)

lemma pow2_diff: "pow2 (a - b) = pow2 a / pow2 b"
  by (simp add: pow2_powi power_int_diff)

lemma bit_length_pos: "0 < n \<Longrightarrow> 1 \<le> bit_length n"
proof (induction n rule: bit_length.induct)
  case (1 n)
  have unf: "bit_length n = 1 + bit_length (n div 2)"
    using "1.prems" by (subst bit_length.simps) simp
  show ?case
  proof (cases "0 < n div 2")
    case True
    from "1.IH" [OF "1.prems" True] unf show ?thesis by simp
  next
    case False
    then have "bit_length (n div 2) = 0" by (subst bit_length.simps) simp
    with unf show ?thesis by simp
  qed
qed

lemma bit_length_int_bounds:
  "0 < n \<Longrightarrow> 2 ^ nat (bit_length n - 1) \<le> n \<and> n < 2 ^ nat (bit_length n)"
proof (induction n rule: bit_length.induct)
  case (1 n)
  have unf: "bit_length n = 1 + bit_length (n div 2)"
    using "1.prems" by (subst bit_length.simps) simp
  show ?case
  proof (cases "0 < n div 2")
    case True
    let ?k = "bit_length (n div 2)"
    from "1.IH" [OF "1.prems" True]
    have lo: "2 ^ nat (?k - 1) \<le> n div 2" and hi: "n div 2 < 2 ^ nat ?k" by simp_all
    have k: "1 \<le> ?k" using True by (rule bit_length_pos)
    have d: "2 * (n div 2) \<le> n" "n < 2 * (n div 2) + 2" by presburger+
    have p1: "(2::int) ^ nat ?k = 2 * 2 ^ nat (?k - 1)"
    proof -
      have "nat ?k = Suc (nat (?k - 1))" using k by simp
      then show ?thesis by simp
    qed
    have p2: "(2::int) ^ nat (1 + ?k) = 2 * 2 ^ nat ?k"
    proof -
      have "nat (1 + ?k) = Suc (nat ?k)" using k by simp
      then show ?thesis by simp
    qed
    have "2 ^ nat ?k \<le> n" using lo d(1) p1 by linarith
    moreover have "n < 2 ^ nat (1 + ?k)" using hi d(2) p2 by linarith
    ultimately show ?thesis by (simp add: unf)
  next
    case False
    with "1.prems" have n1: "n = 1" by presburger
    have "bit_length (1 div 2) = 0" by (subst bit_length.simps) simp
    then have "bit_length 1 = 1" by (subst bit_length.simps) simp
    then show ?thesis by (simp add: n1)
  qed
qed

lemma bit_length_bounds:
  assumes "0 < n"
  shows "pow2 (bit_length n - 1) \<le> of_int n" and "of_int n < pow2 (bit_length n)"
proof -
  have k: "1 \<le> bit_length n" using assms by (rule bit_length_pos)
  from bit_length_int_bounds [OF assms]
  have lo: "2 ^ nat (bit_length n - 1) \<le> n" and hi: "n < 2 ^ nat (bit_length n)" by simp_all
  have "pow2 (bit_length n - 1) = of_int (2 ^ nat (bit_length n - 1))"
    using k by (intro pow2_nat) simp
  also have "\<dots> \<le> of_int n" using lo by (simp only: of_int_le_iff)
  finally show "pow2 (bit_length n - 1) \<le> of_int n" .
  have "(of_int n :: rat) < of_int (2 ^ nat (bit_length n))" using hi by (simp only: of_int_less_iff)
  also have "\<dots> = pow2 (bit_length n)" using k by (intro pow2_nat [symmetric]) simp
  finally show "of_int n < pow2 (bit_length n)" .
qed

lemma floor_log2_le:
  assumes "0 < v"
  shows "pow2 (floor_log2 v) \<le> v"
proof -
  obtain a b where q: "quotient_of v = (a, b)" by (cases "quotient_of v")
  have b: "0 < b" using q by (rule quotient_of_denom_pos)
  have v: "v = of_int a / of_int b" using q by (rule quotient_of_div)
  have a: "0 < a" using assms b v by (simp add: zero_less_divide_iff)
  let ?e = "bit_length a - bit_length b"
  show ?thesis
  proof (cases "pow2 ?e \<le> v")
    case True
    then show ?thesis by (simp add: floor_log2_def q)
  next
    case False
    then have fl: "floor_log2 v = ?e - 1" by (simp add: floor_log2_def q)
    have "pow2 (?e - 1) = pow2 (bit_length a - 1) / pow2 (bit_length b)"
      using pow2_diff [of "bit_length a - 1" "bit_length b"] by (simp add: algebra_simps)
    also have "\<dots> \<le> of_int a / pow2 (bit_length b)"
      using bit_length_bounds(1) [OF a] pow2_pos [of "bit_length b"]
      by (simp add: divide_right_mono)
    also have "\<dots> \<le> of_int a / of_int b"
      using bit_length_bounds(2) [OF b] a b by (simp add: divide_left_mono)
    finally have "pow2 (?e - 1) \<le> v" by (simp add: v)
    then show ?thesis by (simp only: fl)
  qed
qed

lemma floor_log2_upper:
  assumes "0 < v" "v < pow2 k"
  shows "floor_log2 v < k"
proof (rule ccontr)
  assume "\<not> floor_log2 v < k"
  then have "pow2 k \<le> pow2 (floor_log2 v)" by (intro pow2_mono) simp
  with floor_log2_le [OF assms(1)] assms(2) show False by simp
qed

lemma to_double_near:
  assumes "v \<noteq> 0"
  shows "\<bar>to_double v - v\<bar> \<le> pow2 (max (floor_log2 \<bar>v\<bar> - 52) (- 1074)) / 2"
proof -
  let ?q = "max (floor_log2 \<bar>v\<bar> - 52) (- 1074)"
  have p: "0 < pow2 ?q" by (rule pow2_pos)
  have "to_double v - v = (of_int (round_half_even (v / pow2 ?q)) - v / pow2 ?q) * pow2 ?q"
    using assms p by (simp add: to_double_def Let_def algebra_simps)
  then have "\<bar>to_double v - v\<bar> = \<bar>of_int (round_half_even (v / pow2 ?q)) - v / pow2 ?q\<bar> * pow2 ?q"
    using p by (simp add: abs_mult)
  also have "\<dots> \<le> 1 / 2 * pow2 ?q"
    using round_half_even_near [of "v / pow2 ?q"] p by (intro mult_right_mono) simp_all
  finally show ?thesis by simp
qed

lemma times_double_100_near:
  assumes "0 \<le> x" "x \<le> 1"
  shows "\<bar>times_double x 100 - x * 100\<bar> \<le> 1 / 2 ^ 47"
proof (cases "x = 0")
  case True
  then show ?thesis by (simp add: times_double_def to_double_def)
next
  case False
  let ?v = "x * 100"
  have pos: "0 < ?v" using assms(1) False by simp
  have "?v < pow2 7"
  proof -
    have "pow2 7 = 128" by (simp add: pow2_powi)
    with assms(2) show ?thesis by simp
  qed
  with pos have "floor_log2 ?v < 7" by (rule floor_log2_upper)
  then have q: "max (floor_log2 \<bar>?v\<bar> - 52) (- 1074) \<le> - 46" using pos by simp
  have "\<bar>to_double ?v - ?v\<bar> \<le> pow2 (max (floor_log2 \<bar>?v\<bar> - 52) (- 1074)) / 2"
    using pos by (intro to_double_near) simp
  also have "\<dots> \<le> pow2 (- 46) / 2" using pow2_mono [OF q] by simp
  also have "\<dots> = 1 / 2 ^ 47" by (simp add: pow2_powi power_int_minus)
  finally show ?thesis by (simp add: times_double_def)
qed

text \<open>
  The product on the doubles nearest to 0.015, 0.345, 0.145 and 0.285, and on 0.5 and 1:
  1.5 and 34.5 exactly (the exact scaled values are a little below), and the doubles
  next below 14.5 and 28.5.
\<close>

lemma times_double_examples:
  "times_double (1080863910568919 / 72057594037927936) 100 = 3 / 2"
  "times_double (1553741871442821 / 4503599627370496) 100 = 69 / 2"
  "times_double (5224175567749775 / 36028797018963968) 100 = 8162774324609023 / 562949953421312"
  "times_double (5134103575202365 / 18014398509481984) 100 = 8022036836253695 / 281474976710656"
  "times_double (1 / 2) 100 = 50"
  "times_double 1 100 = 100"
  "to_double (1 / 10) = 3602879701896397 / 36028797018963968"
  by code_simp+

lemma monitor_loop_feed:
  "monitor_loop s ts =
     feed_updates s
       (map (\<lambda>t. (tr_infoHash t, Math_round (times_double (num_or (tr_progress t) 0) 100))) ts)"
  by (induction ts arbitrary: s) (simp_all add: Let_def split_beta)

lemma feed_updates_disabled: "\<not> isEnabled s \<Longrightarrow> feed_updates s xs = (s, [])"
proof (induction xs)
  case Nil
  then show ?case by simp
next
  case (Cons x xs)
  then show ?case by (cases x) (simp add: utp_idle)
qed

lemma num_or_fraction: "num_or (tr_progress t) 0 = fraction t"
  by (simp add: num_or_def fraction_def split: option.splits)

text \<open>
  C9, as amended. \<^verbatim>\<open>monitorProgress\<close> on a list of reports does what feeding, in list
  order, each id with its integer percentage through \<^verbatim>\<open>updateTorrentProgress\<close> does: the
  same final state and the same notifications. The percentage is \<^verbatim>\<open>Math.round\<close> of the
  double product of the fraction and 100: the integer nearest to that product, within
  one half of it. The fraction of a report without a progress is 0. For a fraction
  between 0 and 1 the double product is within \<open>2 ^ - 47\<close> of the exact scaled value.
\<close>

theorem monitor_feeds_rounded_double_product:
  "monitorProgress s ts =
     feed_updates s
       (map (\<lambda>t. (tr_infoHash t, Math_round (times_double (fraction t) 100))) ts) \<and>
   \<bar>of_int (Math_round (times_double (fraction t) 100)) - times_double (fraction t) 100\<bar>
     \<le> 1 / 2 \<and>
   fraction (t\<lparr>tr_progress := None\<rparr>) = 0 \<and>
   (0 \<le> fraction t \<and> fraction t \<le> 1 \<longrightarrow>
      \<bar>times_double (fraction t) 100 - fraction t * 100\<bar> \<le> 1 / 2 ^ 47)"
proof (intro conjI)
  show "monitorProgress s ts =
     feed_updates s
       (map (\<lambda>t. (tr_infoHash t, Math_round (times_double (fraction t) 100))) ts)"
    by (cases "isEnabled s")
      (simp_all add: monitorProgress_def monitor_loop_feed feed_updates_disabled num_or_fraction)
  show "\<bar>of_int (Math_round (times_double (fraction t) 100)) - times_double (fraction t) 100\<bar>
     \<le> 1 / 2"
    by (rule Math_round_near)
  show "fraction (t\<lparr>tr_progress := None\<rparr>) = 0"
    by (simp add: fraction_def)
  show "0 \<le> fraction t \<and> fraction t \<le> 1 \<longrightarrow>
      \<bar>times_double (fraction t) 100 - fraction t * 100\<bar> \<le> 1 / 2 ^ 47"
    using times_double_100_near [of "fraction t"] by blast
qed

theorem monitor_feeds_rounded_double_product_witness:
  "fraction nearly_done = 8962163258467287 / 9007199254740992 \<and>
   \<bar>times_double (fraction nearly_done) 100 - fraction nearly_done * 100\<bar> \<le> 1 / 2 ^ 47 \<and>
   monitorProgress one_job [nearly_done] = feed_updates one_job [(''abc123'', 100)]"
proof -
  have f: "fraction nearly_done = 8962163258467287 / 9007199254740992" by code_simp
  have lo: "0 \<le> fraction nearly_done" and hi: "fraction nearly_done \<le> 1" by code_simp+
  have r: "Math_round (times_double (fraction nearly_done) 100) = 100" by code_simp
  have n: "tr_infoHash nearly_done = ''abc123''" by code_simp
  note t = monitor_feeds_rounded_double_product [of one_job "[nearly_done]" nearly_done]
  from t lo hi have near:
    "\<bar>times_double (fraction nearly_done) 100 - fraction nearly_done * 100\<bar> \<le> 1 / 2 ^ 47"
    by blast
  from t have "monitorProgress one_job [nearly_done] =
      feed_updates one_job
        (map (\<lambda>t. (tr_infoHash t, Math_round (times_double (fraction t) 100))) [nearly_done])"
    by (rule conjunct1)
  then have run: "monitorProgress one_job [nearly_done] = feed_updates one_job [(''abc123'', 100)]"
    by (simp only: list.map r n)
  from f near run show ?thesis by (intro conjI)
qed

text \<open>
  The claim as it stands, with the exact scaled value, fails at the double nearest to
  0.995. It is a little below 0.995, so its exact percentage is a little below 99.5 and
  the nearest integer is 99; the double product is 99.5 exactly, \<^verbatim>\<open>Math.round\<close> gives
  100, which is more than one half away from the exact scaled value, and the monitor
  records 100 and sends the completion notification.
\<close>

theorem double_product_rounds_up_to_100:
  "to_double (8962163258467287 / 9007199254740992) = 8962163258467287 / 9007199254740992 \<and>
   fraction nearly_done = 8962163258467287 / 9007199254740992 \<and>
   fraction nearly_done * 100 < 199 / 2 \<and>
   \<lfloor>fraction nearly_done * 100 + 1 / 2\<rfloor> = 99 \<and>
   times_double (fraction nearly_done) 100 = 199 / 2 \<and>
   Math_round (times_double (fraction nearly_done) 100) = 100 \<and>
   1 / 2 < \<bar>100 - fraction nearly_done * 100\<bar> \<and>
   Map_get ''abc123'' (trackedTorrents (fst (monitorProgress one_job [nearly_done]))) =
     Some \<lparr>progress = 100, notified = True, metadata = 0\<rparr> \<and>
   map fst (snd (monitorProgress one_job [nearly_done])) = [''abc123'']"
  by code_simp

section \<open>Resolution of a prefix\<close>

lemma startsWith_take: "startsWith s p = (take (length p) s = p)"
  by (induction s p rule: startsWith.induct) auto

lemma length_toLowerCase: "length (toLowerCase s) = length s"
  by (simp add: toLowerCase_def)

lemma startsWith_prefix_match:
  "startsWith (toLowerCase k) (toLowerCase p) = prefix_match p k"
  by (simp add: startsWith_take prefix_match_def length_toLowerCase)

lemma prefix_match_empty: "prefix_match [] k"
  by (simp add: prefix_match_def toLowerCase_def)

lemma matchedHash_None_iff:
  "(matchedHash p reg = None) = (\<forall>i<length reg. \<not> prefix_match p (fst (reg ! i)))"
proof (induction reg)
  case Nil
  then show ?case by simp
next
  case (Cons e reg)
  obtain k r where e: "e = (k, r)" by (cases e)
  show ?case
    using Cons.IH by (auto simp add: e startsWith_prefix_match less_Suc_eq_0_disj)
qed

lemma matchedHash_Some_iff:
  "(matchedHash p reg = Some k) =
     (\<exists>i<length reg. fst (reg ! i) = k \<and> prefix_match p k \<and>
        (\<forall>j<i. \<not> prefix_match p (fst (reg ! j))))"
proof (induction reg)
  case Nil
  then show ?case by simp
next
  case (Cons e reg)
  obtain k' r where e: "e = (k', r)" by (cases e)
  show ?case
  proof (cases "prefix_match p k'")
    case True
    have "(\<exists>i<length (e # reg). fst ((e # reg) ! i) = k \<and> prefix_match p k \<and>
        (\<forall>j<i. \<not> prefix_match p (fst ((e # reg) ! j)))) = (k' = k)"
    proof
      assume "\<exists>i<length (e # reg). fst ((e # reg) ! i) = k \<and> prefix_match p k \<and>
        (\<forall>j<i. \<not> prefix_match p (fst ((e # reg) ! j)))"
      then obtain i where i: "fst ((e # reg) ! i) = k"
        "\<forall>j<i. \<not> prefix_match p (fst ((e # reg) ! j))" by blast
      have "i = 0"
      proof (rule ccontr)
        assume "i \<noteq> 0"
        then have "0 < i" by simp
        with i(2) have "\<not> prefix_match p (fst ((e # reg) ! 0))" by blast
        with True e show False by simp
      qed
      with i(1) e show "k' = k" by simp
    next
      assume "k' = k"
      with True e show "\<exists>i<length (e # reg). fst ((e # reg) ! i) = k \<and> prefix_match p k \<and>
        (\<forall>j<i. \<not> prefix_match p (fst ((e # reg) ! j)))"
        by (intro exI [of _ 0]) simp
    qed
    with True e show ?thesis by (simp add: startsWith_prefix_match)
  next
    case False
    have "(\<exists>i<length (e # reg). fst ((e # reg) ! i) = k \<and> prefix_match p k \<and>
        (\<forall>j<i. \<not> prefix_match p (fst ((e # reg) ! j)))) =
      (\<exists>i<length reg. fst (reg ! i) = k \<and> prefix_match p k \<and>
        (\<forall>j<i. \<not> prefix_match p (fst (reg ! j))))"
      (is "?L = ?R")
    proof
      assume ?L
      then obtain i where i: "i < length (e # reg)" "fst ((e # reg) ! i) = k" "prefix_match p k"
        "\<forall>j<i. \<not> prefix_match p (fst ((e # reg) ! j))" by blast
      from i(2,3) False e have "i \<noteq> 0" by (cases i) auto
      then obtain n where n: "i = Suc n" by (cases i) auto
      have "\<forall>j<n. \<not> prefix_match p (fst (reg ! j))"
      proof (intro allI impI)
        fix j assume "j < n"
        then have "Suc j < i" using n by simp
        with i(4) have "\<not> prefix_match p (fst ((e # reg) ! Suc j))" by blast
        then show "\<not> prefix_match p (fst (reg ! j))" by simp
      qed
      with i n show ?R by (intro exI [of _ n]) simp
    next
      assume ?R
      then obtain n where n: "n < length reg" "fst (reg ! n) = k" "prefix_match p k"
        "\<forall>j<n. \<not> prefix_match p (fst (reg ! j))" by blast
      have "\<forall>j<Suc n. \<not> prefix_match p (fst ((e # reg) ! j))"
        using n(4) False e by (simp add: less_Suc_eq_0_disj) auto
      with n show ?L by (intro exI [of _ "Suc n"]) simp
    qed
    with False e Cons.IH show ?thesis by (simp add: startsWith_prefix_match)
  qed
qed

lemma matchedHash_Map_set:
  "matchedHash p (Map_set k v reg) =
     (case matchedHash p reg of
        Some x \<Rightarrow> Some x
      | None \<Rightarrow> if prefix_match p k then Some k else None)"
proof (induction reg)
  case Nil
  then show ?case by (simp add: startsWith_prefix_match)
next
  case (Cons e reg)
  obtain k' r where e: "e = (k', r)" by (cases e)
  show ?case
  proof (cases "prefix_match p k'")
    case True
    then show ?thesis by (auto simp add: e startsWith_prefix_match)
  next
    case False
    then show ?thesis using Cons.IH
      by (auto simp add: e startsWith_prefix_match split: option.splits)
  qed
qed

lemma matchedHash_in_map:
  "matchedHash h reg = Some k \<Longrightarrow> \<exists>r. Map_get k reg = Some r \<and> (k, r) \<in> set reg"
proof (induction reg)
  case Nil
  then show ?case by simp
next
  case (Cons e reg)
  obtain k' r' where e: "e = (k', r')" by (cases e)
  show ?case using Cons by (auto simp add: e split: if_splits)
qed

lemma matchedHash_truthy:
  assumes "matchedHash h reg = Some k" "truthy h"
  shows "truthy k"
proof -
  from assms(1) have "prefix_match h k"
    using matchedHash_Some_iff [of h reg k] by blast
  then have "take (length h) (toLowerCase k) = toLowerCase h" by (simp add: prefix_match_def)
  then have "length (take (length h) (toLowerCase k)) = length (toLowerCase h)" by simp
  then have "min (length k) (length h) = length h" by (simp add: length_toLowerCase)
  with assms(2) show ?thesis by (auto simp add: truthy_def)
qed

text \<open>Both commands reject an empty prefix before the loop runs.\<close>

lemma empty_prefix_rejected:
  "\<not> truthy (trim (cmd_text cmd)) \<Longrightarrow>
   torrent_location c s cmd = (s, say_in_try c (cmd_thread_ts cmd) LocationUsage ErrorGettingLocation)"
  "nth_opt (split_ws (trim (cmd_text cmd))) 0 = Some [] \<Longrightarrow>
   torrent_move c s cmd = (s, say_in_try c (cmd_thread_ts cmd) MoveUsage ErrorMovingTorrent)"
  by (simp_all add: torrent_location_def torrent_move_def torrent_move_begin_def truthy_def)

text \<open>
  C3. The loop resolves a prefix to the id at the first position, in the order of the
  map, whose id has the prefix as a leading substring with letter case ignored, and to
  nothing exactly when no id matches. The empty prefix resolves to the first id of a map
  that is not empty, every prefix resolves to nothing on the empty map, and of two
  matching ids set into a map without a match the one set first is returned. The order
  of the map is the order of insertion: \<^verbatim>\<open>set\<close> keeps the place of a key that is
  present and puts a new key last.
\<close>

theorem prefix_resolution_first_match:
  "(matchedHash p reg = Some k) =
     (\<exists>i<length reg. fst (reg ! i) = k \<and> prefix_match p k \<and>
        (\<forall>j<i. \<not> prefix_match p (fst (reg ! j)))) \<and>
   (matchedHash p reg = None) = (\<forall>i<length reg. \<not> prefix_match p (fst (reg ! i))) \<and>
   (reg \<noteq> [] \<longrightarrow> matchedHash [] reg = Some (fst (hd reg))) \<and>
   matchedHash p [] = None \<and>
   (matchedHash p reg = None \<and> prefix_match p a \<and> prefix_match p b \<longrightarrow>
      matchedHash p (Map_set b rb (Map_set a ra reg)) = Some a) \<and>
   map fst (Map_set a ra reg) =
     (if a \<in> set (map fst reg) then map fst reg else map fst reg @ [a])"
proof (intro conjI)
  show "reg \<noteq> [] \<longrightarrow> matchedHash [] reg = Some (fst (hd reg))"
    by (cases reg) (auto simp add: toLowerCase_def)
  show "matchedHash p reg = None \<and> prefix_match p a \<and> prefix_match p b \<longrightarrow>
      matchedHash p (Map_set b rb (Map_set a ra reg)) = Some a"
    by (simp add: matchedHash_Map_set)
qed (simp_all add: matchedHash_Some_iff matchedHash_None_iff matchedHash_Map_set Map_set_keys)

theorem prefix_resolution_first_match_witness:
  "matchedHash ''AAAA'' (Map_set ''aaaa2222'' 1 (Map_set ''aaaa1111'' 0 [])) = Some ''aaaa1111''"
proof -
  have a: "prefix_match ''AAAA'' ''aaaa1111''" by code_simp
  have b: "prefix_match ''AAAA'' ''aaaa2222''" by code_simp
  have n: "matchedHash ''AAAA'' [] = None" by simp
  from prefix_resolution_first_match
    [of "''AAAA''" "[]" "''aaaa1111''" "''aaaa1111''" "''aaaa2222''" 1 0] a b n
  show ?thesis by simp
qed

section \<open>Moving a torrent\<close>

lemma refs_ok_deref:
  "refs_ok s \<Longrightarrow> (k, r) \<in> set (torrentMetadata s) \<Longrightarrow> \<exists>md. deref (objects s) r = Some md"
  by (auto simp add: refs_ok_def deref_def list_all_iff)

text \<open>
  The references stay within the store: the constructor's state has none, registering a
  job adds a fresh object, and a move overwrites an object in place.
\<close>

lemma refs_ok_constructed: "refs_ok constructed"
  by (simp add: refs_ok_def constructed_def)

lemma refs_ok_register: "refs_ok s \<Longrightarrow> refs_ok (register k md p s)"
proof -
  assume "refs_ok s"
  then have "list_all (\<lambda>(k, r). r < length (objects s @ [md])) (torrentMetadata s)"
    by (auto simp add: refs_ok_def list_all_iff)
  then have "list_all (\<lambda>(k, r). r < length (objects s @ [md]))
      (Map_set k (length (objects s)) (torrentMetadata s))"
    by (intro list_all_Map_set) simp_all
  then show ?thesis by (simp add: refs_ok_def register_def Let_def)
qed

lemma refs_ok_move: "refs_ok s \<Longrightarrow> refs_ok (fst (torrent_move c s cmd))"
proof -
  assume ok: "refs_ok s"
  have "objects (fst (torrent_move c s cmd)) = objects s \<or>
        (\<exists>r md. objects (fst (torrent_move c s cmd)) = (objects s)[r := md])"
    unfolding torrent_move_def torrent_move_begin_def
    by (auto simp add: Let_def split_beta split: option.splits sum.splits)
  then have len: "length (objects (fst (torrent_move c s cmd))) = length (objects s)" by auto
  have "torrentMetadata (fst (torrent_move c s cmd)) = torrentMetadata s"
    unfolding torrent_move_def torrent_move_begin_def
    by (auto simp add: Let_def split_beta Map_set_same_value split: option.splits sum.splits)
  with len ok show ?thesis by (simp add: refs_ok_def)
qed

lemma torrent_move_begin_resolved:
  assumes wf: "refs_ok s"
    and parts: "nth_opt (split_ws (trim (cmd_text cmd))) 0 = Some h"
    and h: "truthy h" and nd: "truthy (join (drop 1 (split_ws (trim (cmd_text cmd)))))"
    and res: "matchedHash h (torrentMetadata s) = Some k"
  shows "\<exists>r md. Map_get k (torrentMetadata s) = Some r \<and> deref (objects s) r = Some md \<and>
     torrent_move_begin s cmd =
       (s\<lparr>objects := (objects s)
              [r := md\<lparr>md_destination := join (drop 1 (split_ws (trim (cmd_text cmd))))\<rparr>]\<rparr>,
        Inr \<lparr>mv_matchedHash = k, mv_name = md_name md, mv_oldDestination = md_destination md,
             mv_newDestination = join (drop 1 (split_ws (trim (cmd_text cmd))))\<rparr>)"
proof -
  from matchedHash_in_map [OF res] obtain r where
    r: "Map_get k (torrentMetadata s) = Some r" "(k, r) \<in> set (torrentMetadata s)" by blast
  from refs_ok_deref [OF wf r(2)] obtain md where md: "deref (objects s) r = Some md" by blast
  have k: "truthy k" using res h by (rule matchedHash_truthy)
  have same: "Map_set k r (torrentMetadata s) = torrentMetadata s"
    using r(1) by (rule Map_set_same_value)
  have "torrent_move_begin s cmd =
       (s\<lparr>objects := (objects s)
              [r := md\<lparr>md_destination := join (drop 1 (split_ws (trim (cmd_text cmd))))\<rparr>]\<rparr>,
        Inr \<lparr>mv_matchedHash = k, mv_name = md_name md, mv_oldDestination = md_destination md,
             mv_newDestination = join (drop 1 (split_ws (trim (cmd_text cmd))))\<rparr>)"
    unfolding torrent_move_begin_def Let_def using parts h nd res k r(1) md
    by (simp add: same)
  with r(1) md show ?thesis by blast
qed

text \<open>
  C5. Take a \<^verbatim>\<open>/torrent-move\<close> command whose two arguments are not empty and whose
  prefix the loop resolves to the id \<open>k\<close>. The handler reaches the call of the move
  collaborator in a state \<open>s1\<close> in which the destination of \<open>k\<close> is already the new one
  (before it was the old one, which the reply shows), and \<open>s1\<close> is the state the command
  ends in whatever the collaborators are: the answer of the move collaborator goes into
  the reply only. With no move collaborator, and also when it throws, the reply is the
  one that says the location was updated in the metadata.
\<close>

theorem move_overwrites_destination_before_mover:
  assumes wf: "refs_ok s"
    and parts: "nth_opt (split_ws (trim (cmd_text cmd))) 0 = Some h"
    and h: "truthy h"
    and nd: "nd = join (drop 1 (split_ws (trim (cmd_text cmd))))" "truthy nd"
    and res: "matchedHash h (torrentMetadata s) = Some k"
  shows "\<exists>s1 l. torrent_move_begin s cmd = (s1, Inr l) \<and>
     mv_matchedHash l = k \<and> mv_newDestination l = nd \<and>
     destination_of s k = Some (mv_oldDestination l) \<and>
     destination_of s1 k = Some nd \<and>
     torrentMetadata s1 = torrentMetadata s \<and> trackedTorrents s1 = trackedTorrents s \<and>
     (\<forall>c. torrent_move c s cmd =
        (s1, snd (call_mover c l) @
             say_in_try c (cmd_thread_ts cmd) (torrent_move_finish l (fst (call_mover c l)))
               ErrorMovingTorrent)) \<and>
     (\<forall>c. torrentMoveHandler c = None \<longrightarrow>
        torrent_move c s cmd =
          (s1, say_in_try c (cmd_thread_ts cmd)
                 (MoveReply TorrentLocationUpdated (mv_name l) (mv_oldDestination l) nd
                    (substring8 k) (Some LocationUpdatedInMetadata))
                 ErrorMovingTorrent)) \<and>
     (\<forall>c f. torrentMoveHandler c = Some f \<and> f k nd = Throws \<longrightarrow>
        torrent_move c s cmd =
          (s1, [Call_torrentMoveHandler k nd, ConsoleError] @
               say_in_try c (cmd_thread_ts cmd)
                 (MoveReply TorrentLocationUpdated (mv_name l) (mv_oldDestination l) nd
                    (substring8 k) (Some LocationUpdatedInMetadata))
                 ErrorMovingTorrent))"
proof -
  from torrent_move_begin_resolved [OF wf parts h nd(2) [unfolded nd(1)] res]
  obtain r md where r: "Map_get k (torrentMetadata s) = Some r"
    and md: "deref (objects s) r = Some md"
    and b: "torrent_move_begin s cmd =
       (s\<lparr>objects := (objects s)[r := md\<lparr>md_destination := nd\<rparr>]\<rparr>,
        Inr \<lparr>mv_matchedHash = k, mv_name = md_name md, mv_oldDestination = md_destination md,
             mv_newDestination = nd\<rparr>)"
    unfolding nd(1) by blast
  let ?s1 = "s\<lparr>objects := (objects s)[r := md\<lparr>md_destination := nd\<rparr>]\<rparr>"
  let ?l = "\<lparr>mv_matchedHash = k, mv_name = md_name md, mv_oldDestination = md_destination md,
             mv_newDestination = nd\<rparr>"
  have rlen: "r < length (objects s)" using md by (simp add: deref_def split: if_splits)
  have old: "destination_of s k = Some (mv_oldDestination ?l)"
    using r md by (simp add: destination_of_def)
  have new: "destination_of ?s1 k = Some nd"
    using r rlen by (simp add: destination_of_def deref_def)
  have run: "\<forall>c. torrent_move c s cmd =
        (?s1, snd (call_mover c ?l) @
             say_in_try c (cmd_thread_ts cmd) (torrent_move_finish ?l (fst (call_mover c ?l)))
               ErrorMovingTorrent)"
    by (simp add: torrent_move_def b split_beta)
  have none: "\<forall>c. torrentMoveHandler c = None \<longrightarrow>
        torrent_move c s cmd =
          (?s1, say_in_try c (cmd_thread_ts cmd)
                 (MoveReply TorrentLocationUpdated (mv_name ?l) (mv_oldDestination ?l) nd
                    (substring8 k) (Some LocationUpdatedInMetadata))
                 ErrorMovingTorrent)"
    by (simp add: torrent_move_def b call_mover_def torrent_move_finish_def move_title_of_def
        move_info_of_def status_of_def)
  have throws: "\<forall>c f. torrentMoveHandler c = Some f \<and> f k nd = Throws \<longrightarrow>
        torrent_move c s cmd =
          (?s1, [Call_torrentMoveHandler k nd, ConsoleError] @
               say_in_try c (cmd_thread_ts cmd)
                 (MoveReply TorrentLocationUpdated (mv_name ?l) (mv_oldDestination ?l) nd
                    (substring8 k) (Some LocationUpdatedInMetadata))
                 ErrorMovingTorrent)"
    by (simp add: torrent_move_def b call_mover_def torrent_move_finish_def move_title_of_def
        move_info_of_def status_of_def)
  have "torrent_move_begin s cmd = (?s1, Inr ?l) \<and>
     mv_matchedHash ?l = k \<and> mv_newDestination ?l = nd \<and>
     destination_of s k = Some (mv_oldDestination ?l) \<and>
     destination_of ?s1 k = Some nd \<and>
     torrentMetadata ?s1 = torrentMetadata s \<and> trackedTorrents ?s1 = trackedTorrents s"
    using b old new by simp
  with run none throws show ?thesis by blast
qed

theorem move_overwrites_destination_before_mover_witness:
  "destination_of one_job ''abc123'' = Some ''/app/downloads/movies'' \<and>
   destination_of (fst (torrent_move engine one_job move_abc1)) ''abc123'' = Some ''/new/path'' \<and>
   tracked_destination_of (fst (torrent_move engine one_job move_abc1)) ''abc123'' = Some ''/new/path'' \<and>
   snd (torrent_move engine one_job move_abc1) =
     [Say None (MoveReply TorrentLocationUpdated ''Torrent abc123'' ''/app/downloads/movies''
        ''/new/path'' ''abc123'' (Some LocationUpdatedInMetadata))]"
proof -
  have wf: "refs_ok one_job" by code_simp
  have parts: "nth_opt (split_ws (trim (cmd_text move_abc1))) 0 = Some ''ABC1''" by code_simp
  have h: "truthy ''ABC1''" by code_simp
  have nd: "''/new/path'' = join (drop 1 (split_ws (trim (cmd_text move_abc1))))" by code_simp
  have t: "truthy ''/new/path''" by code_simp
  have res: "matchedHash ''ABC1'' (torrentMetadata one_job) = Some ''abc123''" by code_simp
  from move_overwrites_destination_before_mover [OF wf parts h nd t res]
  obtain s1 l where b: "torrent_move_begin one_job move_abc1 = (s1, Inr l)"
    and new: "destination_of s1 ''abc123'' = Some ''/new/path''"
    and run: "\<forall>c. torrent_move c one_job move_abc1 =
        (s1, snd (call_mover c l) @
             say_in_try c (cmd_thread_ts move_abc1) (torrent_move_finish l (fst (call_mover c l)))
               ErrorMovingTorrent)"
    by blast
  from run have "fst (torrent_move engine one_job move_abc1) = s1" by simp
  with new have 1: "destination_of (fst (torrent_move engine one_job move_abc1)) ''abc123'' = Some ''/new/path''"
    by simp
  have 0: "destination_of one_job ''abc123'' = Some ''/app/downloads/movies''" by code_simp
  have 2: "tracked_destination_of (fst (torrent_move engine one_job move_abc1)) ''abc123'' = Some ''/new/path''"
    by code_simp
  have 3: "snd (torrent_move engine one_job move_abc1) =
     [Say None (MoveReply TorrentLocationUpdated ''Torrent abc123'' ''/app/downloads/movies''
        ''/new/path'' ''abc123'' (Some LocationUpdatedInMetadata))]"
    by code_simp
  from 0 1 2 3 show ?thesis by (intro conjI)
qed

section \<open>What the handlers do to the cache\<close>


lemma lookup_touch: "lookup k s = Some d \<Longrightarrow> s\<lparr>searchResults := Some (entries s)\<rparr> = s"
proof -
  assume a: "lookup k s = Some d"
  have "entries s \<noteq> []"
  proof
    assume "entries s = []"
    with a show False by (simp add: lookup_def)
  qed
  then have "searchResults s = Some (entries s)"
    by (auto simp add: entries_def split: option.splits)
  then show ?thesis by simp
qed

lemma magnetData_Some:
  "magnetData ch es = Some d \<Longrightarrow>
   truthy_opt (magnetLink d) \<and> channel d = ch \<and> d \<in> snd ` set es"
proof (induction es)
  case Nil
  then show ?case by simp
next
  case (Cons e es)
  obtain k d' where e: "e = (k, d')" by (cases e)
  show ?case using Cons by (auto simp add: e split: if_splits)
qed

lemma magnetData_skips:
  "magnetLink d' = None \<Longrightarrow> magnetData ch (xs @ (k, d') # ys) = magnetData ch (xs @ ys)"
proof (induction xs)
  case Nil
  then show ?case by (simp add: truthy_opt_def)
next
  case (Cons e xs)
  obtain k0 d0 where e: "e = (k0, d0)" by (cases e)
  show ?case using Cons by (simp add: e)
qed


lemma add_reply_state:
  "fst (add_reply c s m) = s \<or> fst (add_reply c s m) = s\<lparr>searchResults := Some (entries s)\<rparr>"
  unfolding add_reply_def
  by (simp add: Let_def split: option.splits prod.splits outcome.splits)

lemma add_listener_state:
  "fst (add_listener c s m) = s \<or> fst (add_listener c s m) = s\<lparr>searchResults := Some (entries s)\<rparr>"
  using add_reply_state [of c s m] by (simp add: add_listener_def)


lemma add_no_thread:
  "\<not> truthy_opt (msg_thread_ts m) \<Longrightarrow> add_listener c s m = (s, [])"
  by (simp add: add_listener_def add_reply_def)

lemma torrent_search_state:
  "fst (torrent_search c s cmd) = s \<or>
   (\<exists>key rs q. fst (torrent_search c s cmd) =
      create_session key
        \<lparr>results = Some rs, query = Some q, magnetLink = None, torrentTitle = None,
         channel = cmd_channel_id cmd, userId = cmd_user_id cmd\<rparr> (10 * 60 * 1000) s)"
  unfolding torrent_search_def
  by (auto simp add: Let_def split: option.splits outcome.splits)

lemma number_reply_state:
  "fst (number_reply c s m) = s \<or> fst (number_reply c s m) = cache_step s Touch \<or>
   (\<exists>data. fst (number_reply c s m) = create_session (msg_ts m) data (5 * 60 * 1000) (cache_step s Touch)
      \<and> magnetLink data \<noteq> None \<and> channel data = msg_channel m)"
  unfolding number_reply_def
  by (auto simp add: Let_def split: option.splits outcome.splits)

text \<open>The commands that manage jobs, and the progress updates, do not write the cache.\<close>

lemma register_keeps_cache:
  "searchResults (register k md p s) = searchResults s \<and> timers (register k md p s) = timers s \<and>
   now (register k md p s) = now s"
  by (simp add: register_def Let_def)

lemma torrent_command_keeps_cache:
  "searchResults (fst (torrent_command c s cmd)) = searchResults s \<and>
   timers (fst (torrent_command c s cmd)) = timers s \<and>
   now (fst (torrent_command c s cmd)) = now s"
  unfolding torrent_command_def
  by (simp add: Let_def register_keeps_cache split: option.splits outcome.splits)

lemma torrent_move_keeps_cache:
  "searchResults (fst (torrent_move c s cmd)) = searchResults s \<and>
   timers (fst (torrent_move c s cmd)) = timers s \<and>
   now (fst (torrent_move c s cmd)) = now s"
  unfolding torrent_move_def torrent_move_begin_def
  by (simp add: Let_def split_beta split: option.splits sum.splits)

lemma torrent_location_keeps_state: "fst (torrent_location c s cmd) = s"
  unfolding torrent_location_def
  by (simp add: Let_def split: option.splits)

lemma updateTorrentProgress_keeps_cache:
  "searchResults (fst (updateTorrentProgress s h p)) = searchResults s \<and>
   timers (fst (updateTorrentProgress s h p)) = timers s \<and>
   now (fst (updateTorrentProgress s h p)) = now s"
  unfolding updateTorrentProgress_def
  by (simp add: Let_def split: option.splits)

lemma add_listener_registers_nothing:
  "trackedTorrents (fst (add_listener c s m)) = trackedTorrents s \<and>
   torrentMetadata (fst (add_listener c s m)) = torrentMetadata s \<and>
   objects (fst (add_listener c s m)) = objects s"
  using add_listener_state [of c s m] by auto

section \<open>Expiry of sessions\<close>

lemma entries_fire: "entries (fire key st) = Map_delete key (entries st)"
  by (simp add: fire_def entries_def split: option.splits)

lemma fire_fields: "timers (fire key st) = timers st" "now (fire key st) = now st"
  by (simp_all add: fire_def)

lemma fold_fire_entries:
  "entries (fold (\<lambda>(deadline, key). fire key) due st) =
     filter (\<lambda>(k', v). k' \<notin> snd ` set due) (entries st)"
proof (induction due arbitrary: st)
  case Nil
  then show ?case by simp
next
  case (Cons t due)
  obtain dl key where t: "t = (dl, key)" by (cases t)
  have "filter (\<lambda>(k', v). k' \<notin> snd ` set due) (filter (\<lambda>(k', v). k' \<noteq> key) (entries st)) =
        filter (\<lambda>(k', v). k' \<notin> snd ` set (t # due)) (entries st)"
    by (auto simp add: t intro: filter_cong)
  then show ?case by (simp add: t Cons.IH entries_fire Map_delete_filter)
qed

lemma due_keys:
  "snd ` set (sort_key fst (filter (\<lambda>(deadline, key). deadline \<le> t) ts)) =
     {key. \<exists>dl. (dl, key) \<in> set ts \<and> dl \<le> t}"
  by force

lemma entries_advance:
  "entries (advance d st) =
     filter (\<lambda>(k', v). \<not> (\<exists>dl. (dl, k') \<in> set (timers st) \<and> dl \<le> now st + d)) (entries st)"
proof -
  let ?due = "sort_key fst (filter (\<lambda>(deadline, key). deadline \<le> now st + d) (timers st))"
  have "entries (advance d st) = entries (fold (\<lambda>(deadline, key). fire key) ?due st)"
    by (simp add: advance_def Let_def entries_def)
  also have "\<dots> = filter (\<lambda>(k', v). k' \<notin> snd ` set ?due) (entries st)"
    by (rule fold_fire_entries)
  also have "\<dots> = filter (\<lambda>(k', v). \<not> (\<exists>dl. (dl, k') \<in> set (timers st) \<and> dl \<le> now st + d)) (entries st)"
    unfolding due_keys by simp
  finally show ?thesis .
qed

lemma advance_fields:
  "timers (advance d st) = filter (\<lambda>(deadline, key). \<not> deadline \<le> now st + d) (timers st)"
  "now (advance d st) = now st + d"
  by (simp_all add: advance_def Let_def)

lemma lookup_advance:
  "lookup k (advance d st) =
     (if \<exists>dl. (dl, k) \<in> set (timers st) \<and> dl \<le> now st + d then None else lookup k st)"
proof -
  have "lookup k (advance d st) =
      Map_get k (filter (\<lambda>(k', v). \<not> (\<exists>dl. (dl, k') \<in> set (timers st) \<and> dl \<le> now st + d))
        (entries st))"
    by (simp only: lookup_def entries_advance)
  also have "\<dots> = (if \<not> (\<exists>dl. (dl, k) \<in> set (timers st) \<and> dl \<le> now st + d)
      then Map_get k (entries st) else None)"
    by (rule Map_get_filter)
  finally show ?thesis by (auto simp add: lookup_def)
qed

lemma entries_create: "entries (create_session key data ttl st) = Map_set key data (entries st)"
  by (simp add: create_session_def entries_def)

lemma create_fields:
  "timers (create_session key data ttl st) = timers st @ [(now st + ttl, key)]"
  "now (create_session key data ttl st) = now st"
  by (simp_all add: create_session_def)

lemma lookup_create:
  "lookup k (create_session key data ttl st) = (if key = k then Some data else lookup k st)"
  by (simp add: lookup_def entries_create Map_get_set_same Map_get_set_other)

lemma touch_fields:
  "entries (st\<lparr>searchResults := Some m\<rparr>) = m"
  "lookup k (st\<lparr>searchResults := Some (entries st)\<rparr>) = lookup k st"
  by (simp_all add: entries_def lookup_def)

lemma live_until_step:
  assumes inv: "live_until k data D st" and e: "\<not> creates k e" "forward e"
  shows "live_until k data D (cache_step st e)"
proof (cases e)
  case (Tick d)
  with e(2) have d: "0 \<le> d" by simp
  show ?thesis
  proof (cases "now st < D")
    case True
    with inv have lk: "lookup k st = Some data" and pend: "(D, k) \<in> set (timers st)"
      and only: "list_all (\<lambda>(deadline, key). key = k \<longrightarrow> deadline = D) (timers st)"
      by (simp_all add: live_until_def)
    from only have only': "\<And>dl. (dl, k) \<in> set (timers st) \<Longrightarrow> dl = D"
      by (auto simp add: list_all_iff)
    show ?thesis
    proof (cases "now st + d < D")
      case True
      have "\<not> (\<exists>dl. (dl, k) \<in> set (timers st) \<and> dl \<le> now st + d)"
        using only' True by auto
      then have "lookup k (advance d st) = Some data" using lk by (simp add: lookup_advance)
      moreover have "(D, k) \<in> set (timers (advance d st))"
        using pend True by (simp add: advance_fields)
      moreover have "list_all (\<lambda>(deadline, key). key = k \<longrightarrow> deadline = D) (timers (advance d st))"
        using only by (auto simp add: advance_fields list_all_iff)
      ultimately show ?thesis using True Tick by (simp add: live_until_def advance_fields)
    next
      case False
      then have "\<exists>dl. (dl, k) \<in> set (timers st) \<and> dl \<le> now st + d" using pend by auto
      then have "lookup k (advance d st) = None" by (simp add: lookup_advance)
      moreover have "list_all (\<lambda>(deadline, key). key \<noteq> k) (timers (advance d st))"
        using only' False by (auto simp add: advance_fields list_all_iff)
      ultimately show ?thesis using False Tick by (simp add: live_until_def advance_fields)
    qed
  next
    case False
    with inv have lk: "lookup k st = None"
      and none: "list_all (\<lambda>(deadline, key). key \<noteq> k) (timers st)"
      by (simp_all add: live_until_def)
    have "lookup k (advance d st) = None" using lk by (simp add: lookup_advance)
    moreover have "list_all (\<lambda>(deadline, key). key \<noteq> k) (timers (advance d st))"
      using none by (auto simp add: advance_fields list_all_iff)
    moreover have "\<not> now st + d < D" using False d by simp
    ultimately show ?thesis using Tick by (simp add: live_until_def advance_fields)
  qed
next
  case (Create key data' ttl)
  with e(1) have ne: "key \<noteq> k" by simp
  show ?thesis using inv ne
    by (auto simp add: Create live_until_def lookup_create create_fields split: if_splits)
next
  case Touch
  show ?thesis using inv
    by (simp add: Touch live_until_def touch_fields)
qed

lemma now_step: "now (cache_step st e) = now st + elapsed [e]"
  by (cases e) (simp_all add: advance_fields create_fields)

lemma elapsed_Cons: "elapsed (e # es) = elapsed [e] + elapsed es"
  by (cases e) simp_all

lemma live_until_run:
  assumes "live_until k data D st" and "list_all (\<lambda>e. \<not> creates k e \<and> forward e) evs"
  shows "live_until k data D (foldl cache_step st evs) \<and>
         now (foldl cache_step st evs) = now st + elapsed evs"
  using assms
proof (induction evs arbitrary: st)
  case Nil
  then show ?case by simp
next
  case (Cons e evs)
  from Cons.prems(2) have e: "\<not> creates k e" "forward e"
    and rest: "list_all (\<lambda>e. \<not> creates k e \<and> forward e) evs" by simp_all
  have step: "live_until k data D (cache_step st e)"
    using Cons.prems(1) e by (rule live_until_step)
  from Cons.IH [OF step rest] show ?case
    using now_step [of st e] elapsed_Cons [of e evs] by simp
qed

lemma live_until_create:
  assumes "list_all (\<lambda>(deadline, key). key \<noteq> k) (timers s)" and "0 < ttl"
  shows "live_until k data (now s + ttl) (create_session k data ttl s)"
  using assms
  by (auto simp add: live_until_def lookup_create create_fields list_all_iff)

lemma without_key_step:
  assumes r: "without_key k st1 st2" and e: "\<not> creates k e"
  shows "without_key k (cache_step st1 e) (cache_step st2 e)"
proof (cases e)
  case (Tick d)
  from r have n: "now st2 = now st1"
    and en: "entries st2 = filter (\<lambda>(key, data). key \<noteq> k) (entries st1)"
    and tm: "timers st2 = filter (\<lambda>(deadline, key). key \<noteq> k) (timers st1)"
    by (simp_all add: without_key_def)
  have "entries (advance d st2) = filter (\<lambda>(key, data). key \<noteq> k) (entries (advance d st1))"
    unfolding entries_advance en tm n by (auto intro: filter_cong)
  moreover have "timers (advance d st2) = filter (\<lambda>(deadline, key). key \<noteq> k) (timers (advance d st1))"
    unfolding advance_fields tm n by (auto intro: filter_cong)
  ultimately show ?thesis using n by (simp add: Tick without_key_def advance_fields)
next
  case (Create key data' ttl)
  with e have ne: "key \<noteq> k" by simp
  show ?thesis using r ne
    by (simp add: Create without_key_def entries_create create_fields Map_set_filter)
next
  case Touch
  show ?thesis using r by (simp add: Touch without_key_def touch_fields)
qed

lemma without_key_run:
  assumes "without_key k st1 st2" and "list_all (\<lambda>e. \<not> creates k e \<and> forward e) evs"
  shows "without_key k (foldl cache_step st1 evs) (foldl cache_step st2 evs)"
  using assms
proof (induction evs arbitrary: st1 st2)
  case Nil
  then show ?case by simp
next
  case (Cons e evs)
  from Cons.prems(2) have e: "\<not> creates k e"
    and rest: "list_all (\<lambda>e. \<not> creates k e \<and> forward e) evs" by simp_all
  have "without_key k (cache_step st1 e) (cache_step st2 e)"
    using Cons.prems(1) e by (rule without_key_step)
  from Cons.IH [OF this rest] show ?case by simp
qed

lemma without_key_create:
  assumes "lookup k s = None" and "list_all (\<lambda>(deadline, key). key \<noteq> k) (timers s)"
  shows "without_key k (create_session k data ttl s) s"
proof -
  have notin: "k \<notin> fst ` set (entries s)"
    using assms(1) by (simp add: lookup_def Map_get_None_iff)
  have en: "filter (\<lambda>(key, d). key \<noteq> k) (Map_set k data (entries s)) = entries s"
    using notin by (rule filter_Map_set_new)
  have tm: "filter (\<lambda>(deadline, key). key \<noteq> k) (timers s) = timers s"
    using assms(2) by (rule filter_all_kept)
  show ?thesis by (simp add: without_key_def entries_create create_fields en tm)
qed

lemma without_key_gone:
  assumes r: "without_key k st1 st2" and gone: "lookup k st1 = None"
    and none: "list_all (\<lambda>(deadline, key). key \<noteq> k) (timers st1)"
  shows "entries st1 = entries st2 \<and> timers st1 = timers st2 \<and> now st1 = now st2"
proof -
  have "k \<notin> fst ` set (entries st1)" using gone by (simp add: lookup_def Map_get_None_iff)
  then have "list_all (\<lambda>(key, d). key \<noteq> k) (entries st1)"
    by (force simp add: list_all_iff)
  then have "filter (\<lambda>(key, d). key \<noteq> k) (entries st1) = entries st1" by (rule filter_all_kept)
  moreover have "filter (\<lambda>(deadline, key). key \<noteq> k) (timers st1) = timers st1"
    using none by (rule filter_all_kept)
  ultimately show ?thesis using r by (simp add: without_key_def)
qed

text \<open>
  C6, as amended. Take a key that is not in the cache and that no pending timer will
  delete, and create a session under it with a positive time to live. Let anything
  follow that does not create a session under the same key: time passing, other sessions
  being created, handlers reading the cache. Then a read of the key finds the session
  exactly while less than the time to live has passed; reading does not move the
  deadline. Once the time to live has passed, the entries, the timers and the clock are
  those of the run in which the session was never created. \<^verbatim>\<open>/torrent-search\<close> creates
  its session with 10 minutes to live, the number reply with 5 minutes, and the add
  reply creates none.
\<close>

theorem session_visible_until_expiry:
  assumes fresh: "lookup k s = None" "list_all (\<lambda>(deadline, key). key \<noteq> k) (timers s)"
    and ttl: "0 < ttl"
    and evs: "list_all (\<lambda>e. \<not> creates k e \<and> forward e) evs"
  shows "lookup k (foldl cache_step (create_session k data ttl s) evs) =
           (if elapsed evs < ttl then Some data else None) \<and>
         (ttl \<le> elapsed evs \<longrightarrow>
            entries (foldl cache_step (create_session k data ttl s) evs) =
              entries (foldl cache_step s evs) \<and>
            timers (foldl cache_step (create_session k data ttl s) evs) =
              timers (foldl cache_step s evs) \<and>
            now (foldl cache_step (create_session k data ttl s) evs) =
              now (foldl cache_step s evs)) \<and>
         (fst (torrent_search c s cmd) = s \<or>
          (\<exists>key rs q. fst (torrent_search c s cmd) =
             create_session key
               \<lparr>results = Some rs, query = Some q, magnetLink = None, torrentTitle = None,
                channel = cmd_channel_id cmd, userId = cmd_user_id cmd\<rparr> (10 * 60 * 1000) s)) \<and>
         (fst (number_listener c s m) = s \<or> fst (number_listener c s m) = cache_step s Touch \<or>
          (\<exists>d. fst (number_listener c s m) =
             create_session (msg_ts m) d (5 * 60 * 1000) (cache_step s Touch))) \<and>
         (fst (add_listener c s m) = s \<or> fst (add_listener c s m) = cache_step s Touch)"
proof -
  let ?st = "foldl cache_step (create_session k data ttl s) evs"
  have start: "live_until k data (now s + ttl) (create_session k data ttl s)"
    using fresh(2) ttl by (rule live_until_create)
  from live_until_run [OF start evs]
  have inv: "live_until k data (now s + ttl) ?st" and t: "now ?st = now s + elapsed evs"
    by (simp_all add: create_fields)
  have vis: "lookup k ?st = (if elapsed evs < ttl then Some data else None)"
    using inv t by (simp add: live_until_def)
  have same: "ttl \<le> elapsed evs \<longrightarrow>
      entries ?st = entries (foldl cache_step s evs) \<and>
      timers ?st = timers (foldl cache_step s evs) \<and>
      now ?st = now (foldl cache_step s evs)"
  proof
    assume late: "ttl \<le> elapsed evs"
    have r: "without_key k ?st (foldl cache_step s evs)"
      using without_key_create [OF fresh] evs by (rule without_key_run)
    from inv t late have "lookup k ?st = None"
      and "list_all (\<lambda>(deadline, key). key \<noteq> k) (timers ?st)"
      by (simp_all add: live_until_def)
    with r show "entries ?st = entries (foldl cache_step s evs) \<and>
      timers ?st = timers (foldl cache_step s evs) \<and>
      now ?st = now (foldl cache_step s evs)"
      by (rule without_key_gone)
  qed
  have search: "fst (torrent_search c s cmd) = s \<or>
          (\<exists>key rs q. fst (torrent_search c s cmd) =
             create_session key
               \<lparr>results = Some rs, query = Some q, magnetLink = None, torrentTitle = None,
                channel = cmd_channel_id cmd, userId = cmd_user_id cmd\<rparr> (10 * 60 * 1000) s)"
    unfolding torrent_search_def
    by (auto simp add: Let_def split: option.splits outcome.splits)
  have number: "fst (number_listener c s m) = s \<or> fst (number_listener c s m) = cache_step s Touch \<or>
          (\<exists>d. fst (number_listener c s m) =
             create_session (msg_ts m) d (5 * 60 * 1000) (cache_step s Touch))"
    using number_reply_state [of c s m] by (auto simp add: number_listener_def)
  have add: "fst (add_listener c s m) = s \<or> fst (add_listener c s m) = cache_step s Touch"
    unfolding add_listener_def add_reply_def
    by (simp add: Let_def split: option.splits prod.splits outcome.splits)
  from vis same search number add show ?thesis by (intro conjI)
qed

theorem session_visible_until_expiry_witness:
  "lookup ''200.2''
     (foldl cache_step
        (create_session ''200.2''
           \<lparr>results = None, query = None, magnetLink = Some ''magnet:?xt=urn:btih:abc123'',
            torrentTitle = Some ''Inception 720p'', channel = ''C1'', userId = ''U1''\<rparr>
           (5 * 60 * 1000) results_shown)
        [Tick 100000, Touch, Tick 199999]) =
     Some \<lparr>results = None, query = None, magnetLink = Some ''magnet:?xt=urn:btih:abc123'',
            torrentTitle = Some ''Inception 720p'', channel = ''C1'', userId = ''U1''\<rparr> \<and>
   lookup ''200.2''
     (foldl cache_step
        (create_session ''200.2''
           \<lparr>results = None, query = None, magnetLink = Some ''magnet:?xt=urn:btih:abc123'',
            torrentTitle = Some ''Inception 720p'', channel = ''C1'', userId = ''U1''\<rparr>
           (5 * 60 * 1000) results_shown)
        [Tick 100000, Touch, Tick 200000]) = None"
proof -
  let ?d = "\<lparr>results = None, query = None, magnetLink = Some ''magnet:?xt=urn:btih:abc123'',
            torrentTitle = Some ''Inception 720p'', channel = ''C1'', userId = ''U1''\<rparr>"
  have f1: "lookup ''200.2'' results_shown = None" by code_simp
  have f2: "list_all (\<lambda>(deadline, key). key \<noteq> ''200.2'') (timers results_shown)" by code_simp
  have ttl: "(0::int) < 5 * 60 * 1000" by simp
  have e1: "list_all (\<lambda>e. \<not> creates ''200.2'' e \<and> forward e) [Tick 100000, Touch, Tick 199999]"
    by simp
  have e2: "list_all (\<lambda>e. \<not> creates ''200.2'' e \<and> forward e) [Tick 100000, Touch, Tick 200000]"
    by simp
  have l1: "elapsed [Tick 100000, Touch, Tick 199999] < 5 * 60 * 1000" by simp
  have l2: "\<not> elapsed [Tick 100000, Touch, Tick 200000] < 5 * 60 * 1000" by simp
  from session_visible_until_expiry [OF f1 f2 ttl e1, of ?d] l1
  have a: "lookup ''200.2''
     (foldl cache_step (create_session ''200.2'' ?d (5 * 60 * 1000) results_shown)
        [Tick 100000, Touch, Tick 199999]) = Some ?d"
    by (simp only: if_True)
  from session_visible_until_expiry [OF f1 f2 ttl e2, of ?d] l2
  have b: "lookup ''200.2''
     (foldl cache_step (create_session ''200.2'' ?d (5 * 60 * 1000) results_shown)
        [Tick 100000, Touch, Tick 200000]) = None"
    by (simp only: if_False)
  from a b show ?thesis by (rule conjI)
qed

text \<open>
  The claim as it stands, for every session, fails when a key is used again while a
  timer for it is pending. The reply \<open>2\<close> creates the session \<open>200.2\<close> at time 0. The
  same message is delivered again one minute later and creates the session anew, with 5
  minutes to live; the timer of the first delivery deletes it at 300000, only 240000
  milliseconds into its life. A third delivery at 310000 finds the key absent and
  creates the session once more; the timer of the second delivery deletes it at 360000,
  after 50000 milliseconds.
\<close>

theorem redelivered_reply_expires_early:
  "now (advance 60000 magnet_ready) = 60000 \<and>
   fst (number_listener engine (advance 60000 magnet_ready) reply_2) =
     create_session ''200.2''
       \<lparr>results = None, query = None, magnetLink = Some ''magnet:?xt=urn:btih:abc123'',
        torrentTitle = Some ''Inception 720p'', channel = ''C1'', userId = ''U1''\<rparr>
       (5 * 60 * 1000) (advance 60000 magnet_ready) \<and>
   lookup ''200.2'' (fst (number_listener engine (advance 60000 magnet_ready) reply_2)) =
     Some \<lparr>results = None, query = None, magnetLink = Some ''magnet:?xt=urn:btih:abc123'',
           torrentTitle = Some ''Inception 720p'', channel = ''C1'', userId = ''U1''\<rparr> \<and>
   (240000 :: int) < 5 * 60 * 1000 \<and>
   lookup ''200.2''
     (advance 240000 (fst (number_listener engine (advance 60000 magnet_ready) reply_2))) = None \<and>
   lookup ''200.2'' (advance 10000 twice_delivered) = None \<and>
   fst (number_listener engine (advance 10000 twice_delivered) reply_2) =
     create_session ''200.2''
       \<lparr>results = None, query = None, magnetLink = Some ''magnet:?xt=urn:btih:abc123'',
        torrentTitle = Some ''Inception 720p'', channel = ''C1'', userId = ''U1''\<rparr>
       (5 * 60 * 1000) (advance 10000 twice_delivered) \<and>
   lookup ''200.2'' (fst (number_listener engine (advance 10000 twice_delivered) reply_2)) =
     Some \<lparr>results = None, query = None, magnetLink = Some ''magnet:?xt=urn:btih:abc123'',
           torrentTitle = Some ''Inception 720p'', channel = ''C1'', userId = ''U1''\<rparr> \<and>
   (50000 :: int) < 5 * 60 * 1000 \<and>
   lookup ''200.2''
     (advance 50000 (fst (number_listener engine (advance 10000 twice_delivered) reply_2))) = None"
  by code_simp

section \<open>Properties of the add reply\<close>

text \<open>
  C2. With a live magnet session in channel \<open>C1\<close> and an engine that accepts the link,
  the reply \<^verbatim>\<open>add tv /custom\<close> calls the add collaborator and answers that the torrent was
  added, but leaves both \<^verbatim>\<open>trackedTorrents\<close> and \<^verbatim>\<open>torrentMetadata\<close> empty, so a later
  progress of 100 for the returned hash notifies nobody. \<^verbatim>\<open>/torrent\<close> in the same state
  registers the job, with the default destination of its type, and the same progress
  report sends the notification.
\<close>

theorem add_reply_registers_no_job:
  "magnetData ''C1'' (entries magnet_ready) =
     Some \<lparr>results = None, query = None, magnetLink = Some ''magnet:?xt=urn:btih:abc123'',
           torrentTitle = Some ''Inception 720p'', channel = ''C1'', userId = ''U1''\<rparr> \<and>
   snd (add_listener engine magnet_ready reply_add) =
     [Say (Some ''100.1'')
        (AddingFromSearch (Some ''Inception 720p'') (Some ''tv'') (Some ''/custom'')),
      Call_torrentHandler ''magnet:?xt=urn:btih:abc123'' (Some ''tv'') (Some ''/custom''),
      Say (Some ''100.1'') (TorrentAdded ''Inception 720p'' ''abc123'')] \<and>
   trackedTorrents (fst (add_listener engine magnet_ready reply_add)) = [] \<and>
   torrentMetadata (fst (add_listener engine magnet_ready reply_add)) = [] \<and>
   updateTorrentProgress (fst (add_listener engine magnet_ready reply_add)) ''abc123'' 100 =
     (fst (add_listener engine magnet_ready reply_add), None) \<and>
   trackedTorrents (fst (torrent_command engine magnet_ready add_movie)) =
     [(''abc123'', \<lparr>progress = 0, notified = False, metadata = 0\<rparr>)] \<and>
   destination_of (fst (torrent_command engine magnet_ready add_movie)) ''abc123'' =
     Some ''/app/downloads/movies'' \<and>
   snd (updateTorrentProgress (fst (torrent_command engine magnet_ready add_movie)) ''abc123'' 100)
     \<noteq> None"
  by code_simp



text \<open>
  C10. The scan of the add reply returns only an entry with a truthy \<^verbatim>\<open>magnetLink\<close> and
  the channel of the message; an entry without a \<^verbatim>\<open>magnetLink\<close> is passed over wherever
  it stands in the map, whatever its other fields are. The session that
  \<^verbatim>\<open>/torrent-search\<close> stores has no \<^verbatim>\<open>magnetLink\<close>. An add message outside a thread changes
  nothing and sends nothing.
\<close>

theorem add_scan_matches_only_magnet_sessions:
  "(magnetData ch es = Some d \<longrightarrow>
      truthy_opt (magnetLink d) \<and> channel d = ch \<and> d \<in> snd ` set es) \<and>
   (magnetLink d' = None \<longrightarrow> magnetData ch (xs @ (k, d') # ys) = magnetData ch (xs @ ys)) \<and>
   (fst (torrent_search c s cmd) = s \<or>
    (\<exists>key rs q. fst (torrent_search c s cmd) =
       create_session key
         \<lparr>results = Some rs, query = Some q, magnetLink = None, torrentTitle = None,
          channel = cmd_channel_id cmd, userId = cmd_user_id cmd\<rparr> (10 * 60 * 1000) s)) \<and>
   (\<not> truthy_opt (msg_thread_ts m) \<longrightarrow> add_listener c s m = (s, []))"
  using magnetData_Some [of ch es d] magnetData_skips [of d' ch xs k ys]
    torrent_search_state [of c s cmd] add_no_thread [of m c s]
  by (intro conjI impI) blast+

theorem add_scan_matches_only_magnet_sessions_witness:
  "magnetData ''C1'' (entries results_shown) = None \<and>
   magnetData ''C1'' (entries magnet_ready) =
     Some \<lparr>results = None, query = None, magnetLink = Some ''magnet:?xt=urn:btih:abc123'',
           torrentTitle = Some ''Inception 720p'', channel = ''C1'', userId = ''U1''\<rparr> \<and>
   add_listener engine magnet_ready (reply_add\<lparr>msg_thread_ts := None\<rparr>) = (magnet_ready, [])"
proof -
  let ?d = "\<lparr>results = None, query = None, magnetLink = Some ''magnet:?xt=urn:btih:abc123'',
           torrentTitle = Some ''Inception 720p'', channel = ''C1'', userId = ''U1''\<rparr>"
  let ?d' = "\<lparr>results = Some three_results, query = Some ''Inception'', magnetLink = None,
            torrentTitle = None, channel = ''C1'', userId = ''U1''\<rparr>"
  let ?m = "reply_add\<lparr>msg_thread_ts := None\<rparr>"
  have es: "entries magnet_ready = [] @ (''100.1'', ?d') # [(''200.2'', ?d)]" by code_simp
  have rest: "magnetData ''C1'' ([] @ [(''200.2'', ?d)]) = Some ?d" by code_simp
  have nolink: "magnetLink ?d' = None" by simp
  have nothread: "\<not> truthy_opt (msg_thread_ts ?m)" by code_simp
  note t = add_scan_matches_only_magnet_sessions
    [of "''C1''" "entries magnet_ready" ?d ?d' "[]" "''100.1''" "[(''200.2'', ?d)]" engine
       magnet_ready search_inception ?m]
  from t nolink have "magnetData ''C1'' ([] @ (''100.1'', ?d') # [(''200.2'', ?d)]) =
      magnetData ''C1'' ([] @ [(''200.2'', ?d)])"
    by blast
  with es rest have 1: "magnetData ''C1'' (entries magnet_ready) = Some ?d" by simp
  from t nothread have 2: "add_listener engine magnet_ready ?m = (magnet_ready, [])" by blast
  have 0: "magnetData ''C1'' (entries results_shown) = None" by code_simp
  from 0 1 2 show ?thesis by (intro conjI)
qed

section \<open>Properties of the number reply\<close>

lemma is_digit_not_space: "is_digit lo hi a \<Longrightarrow> \<not> is_space a"
  by (auto simp add: is_digit_def is_space_def)

lemma number_pattern_cases:
  assumes "number_pattern t"
  obtains a where "t = [a]" "is_digit 1 9 a"
  | a b where "t = [a, b]" "is_digit 1 9 a" "is_digit 0 9 b"
  using assms by (cases t rule: number_pattern.cases) auto

lemma number_pattern_trim: "number_pattern t \<Longrightarrow> trim t = t"
  by (erule number_pattern_cases) (simp_all add: trim_def is_digit_not_space)

lemma number_pattern_range: "number_pattern t \<Longrightarrow> 1 \<le> parseInt t \<and> parseInt t \<le> 99"
  by (erule number_pattern_cases) (auto simp add: parseInt_def is_digit_def)

lemma number_reply_out_of_range:
  assumes bot: "\<not> truthy_opt (msg_bot_id m)" and th: "msg_thread_ts m = Some th" "truthy th"
    and d: "lookup th s = Some d" and rs: "results d = Some rs"
    and n: "length rs < parseInt (trim (msg_text m))"
  shows "number_reply c s m =
     (s, Say (Some th) (InvalidSelection (length rs)) #
         (if say_ok c (InvalidSelection (length rs)) then [] else [ConsoleError]))"
proof -
  have touch: "s\<lparr>searchResults := Some (entries s)\<rparr> = s" using d by (rule lookup_touch)
  have get: "Map_get th (entries s) = Some d" using d by (simp add: lookup_def)
  have idx: "int (parseInt (trim (msg_text m))) - 1 \<ge> int (length rs)" using n by simp
  show ?thesis
    unfolding number_reply_def using bot th get rs idx
    by (simp add: Let_def touch)
qed

lemma number_reply_in_range:
  assumes bot: "\<not> truthy_opt (msg_bot_id m)" and th: "msg_thread_ts m = Some th" "truthy th"
    and d: "lookup th s = Some d" and rs: "results d = Some rs"
    and n: "1 \<le> parseInt (trim (msg_text m))" "parseInt (trim (msg_text m)) \<le> length rs"
  shows "\<exists>rest. snd (number_reply c s m) =
       Say (Some th) (GettingMagnet (sr_title (rs ! (parseInt (trim (msg_text m)) - 1)))) # rest \<and>
       (say_ok c (GettingMagnet (sr_title (rs ! (parseInt (trim (msg_text m)) - 1)))) \<longrightarrow>
          (\<exists>rest'. rest = Call_getMagnet (rs ! (parseInt (trim (msg_text m)) - 1)) # rest'))"
proof -
  have get: "Map_get th (entries s) = Some d" using d by (simp add: lookup_def)
  have i1: "\<not> int (parseInt (trim (msg_text m))) - 1 < 0" using n by simp
  have i2: "\<not> int (parseInt (trim (msg_text m))) - 1 \<ge> int (length rs)" using n by simp
  have i3: "nat (int (parseInt (trim (msg_text m))) - 1) = parseInt (trim (msg_text m)) - 1"
    using n by simp
  show ?thesis
    unfolding number_reply_def using bot th get rs i1 i2
    by (simp add: Let_def i3 split: outcome.splits option.splits)
qed

text \<open>
  C8, as amended. Take a message that is not from a bot, whose text matches the number
  pattern, sent in the thread of a message under whose timestamp the cache holds a
  session with results. Its number \<open>n\<close> is between 1 and 99. When \<open>n\<close> is at most the
  number of results, the handler announces the result at position \<open>n\<close> counted from 1
  and, the transport accepting that, asks the provider for the link of that result.
  When \<open>n\<close> is larger, the handler reports the invalid selection and does nothing else:
  the state is the one it was given and the provider is not asked.
\<close>

theorem number_reply_selects_ordinal:
  assumes pat: "number_pattern (msg_text m)"
    and bot: "\<not> truthy_opt (msg_bot_id m)"
    and th: "msg_thread_ts m = Some th" "truthy th"
    and d: "lookup th s = Some d" and rs: "results d = Some rs"
  shows "1 \<le> parseInt (msg_text m) \<and> parseInt (msg_text m) \<le> 99 \<and>
     (parseInt (msg_text m) \<le> length rs \<longrightarrow>
        (\<exists>rest. snd (number_listener c s m) =
           Say (Some th) (GettingMagnet (sr_title (rs ! (parseInt (msg_text m) - 1)))) # rest \<and>
           (say_ok c (GettingMagnet (sr_title (rs ! (parseInt (msg_text m) - 1)))) \<longrightarrow>
              (\<exists>rest'. rest = Call_getMagnet (rs ! (parseInt (msg_text m) - 1)) # rest')))) \<and>
     (length rs < parseInt (msg_text m) \<longrightarrow>
        number_listener c s m =
          (s, Say (Some th) (InvalidSelection (length rs)) #
              (if say_ok c (InvalidSelection (length rs)) then [] else [ConsoleError])))"
proof -
  have tr: "trim (msg_text m) = msg_text m" using pat by (rule number_pattern_trim)
  have range: "1 \<le> parseInt (msg_text m) \<and> parseInt (msg_text m) \<le> 99"
    using pat by (rule number_pattern_range)
  have run: "number_listener c s m = number_reply c s m" using pat by (simp add: number_listener_def)
  have inr: "parseInt (msg_text m) \<le> length rs \<longrightarrow>
        (\<exists>rest. snd (number_listener c s m) =
           Say (Some th) (GettingMagnet (sr_title (rs ! (parseInt (msg_text m) - 1)))) # rest \<and>
           (say_ok c (GettingMagnet (sr_title (rs ! (parseInt (msg_text m) - 1)))) \<longrightarrow>
              (\<exists>rest'. rest = Call_getMagnet (rs ! (parseInt (msg_text m) - 1)) # rest')))"
  proof
    assume le: "parseInt (msg_text m) \<le> length rs"
    from number_reply_in_range [OF bot th d rs, of c] range le
    show "\<exists>rest. snd (number_listener c s m) =
           Say (Some th) (GettingMagnet (sr_title (rs ! (parseInt (msg_text m) - 1)))) # rest \<and>
           (say_ok c (GettingMagnet (sr_title (rs ! (parseInt (msg_text m) - 1)))) \<longrightarrow>
              (\<exists>rest'. rest = Call_getMagnet (rs ! (parseInt (msg_text m) - 1)) # rest'))"
      unfolding run tr by blast
  qed
  have out: "length rs < parseInt (msg_text m) \<longrightarrow>
        number_listener c s m =
          (s, Say (Some th) (InvalidSelection (length rs)) #
              (if say_ok c (InvalidSelection (length rs)) then [] else [ConsoleError]))"
  proof
    assume gt: "length rs < parseInt (msg_text m)"
    then have "length rs < parseInt (trim (msg_text m))" by (simp add: tr)
    from number_reply_out_of_range [OF bot th d rs this]
    show "number_listener c s m =
          (s, Say (Some th) (InvalidSelection (length rs)) #
              (if say_ok c (InvalidSelection (length rs)) then [] else [ConsoleError]))"
      unfolding run .
  qed
  from range inr out show ?thesis by blast
qed

theorem number_reply_selects_ordinal_witness:
  "parseInt (msg_text reply_2) = 2 \<and>
   take 2 (snd (number_listener engine results_shown reply_2)) =
     [Say (Some ''100.1'') (GettingMagnet ''Inception 720p''),
      Call_getMagnet (three_results ! 1)] \<and>
   number_listener engine results_shown (reply_2\<lparr>msg_text := ''7''\<rparr>) =
     (results_shown, [Say (Some ''100.1'') (InvalidSelection 3)])"
proof -
  let ?d = "\<lparr>results = Some three_results, query = Some ''Inception'', magnetLink = None,
            torrentTitle = None, channel = ''C1'', userId = ''U1''\<rparr>"
  let ?m7 = "reply_2\<lparr>msg_text := ''7''\<rparr>"
  have pat: "number_pattern (msg_text reply_2)" and pat7: "number_pattern (msg_text ?m7)"
    by code_simp+
  have bot: "\<not> truthy_opt (msg_bot_id reply_2)" and bot7: "\<not> truthy_opt (msg_bot_id ?m7)"
    by code_simp+
  have th: "msg_thread_ts reply_2 = Some ''100.1''" and th7: "msg_thread_ts ?m7 = Some ''100.1''"
    by code_simp+
  have tt: "truthy ''100.1''" by code_simp
  have d: "lookup ''100.1'' results_shown = Some ?d" by code_simp
  have rs: "results ?d = Some three_results" by simp
  have n2: "parseInt (msg_text reply_2) = 2" by code_simp
  have n7: "parseInt (msg_text ?m7) = 7" by code_simp
  have len: "length three_results = 3" by code_simp
  have ok: "say_ok engine r" for r by (simp add: engine_def)
  have title: "sr_title (three_results ! 1) = ''Inception 720p''" by code_simp
  from number_reply_selects_ordinal [OF pat bot th tt d rs, of engine]
  have "\<exists>rest. snd (number_listener engine results_shown reply_2) =
      Say (Some ''100.1'') (GettingMagnet ''Inception 720p'') #
      Call_getMagnet (three_results ! 1) # rest"
    unfolding n2 len using ok title by auto
  then have a: "take 2 (snd (number_listener engine results_shown reply_2)) =
     [Say (Some ''100.1'') (GettingMagnet ''Inception 720p''),
      Call_getMagnet (three_results ! 1)]"
    by auto
  from number_reply_selects_ordinal [OF pat7 bot7 th7 tt d rs, of engine]
  have b: "number_listener engine results_shown ?m7 =
     (results_shown, [Say (Some ''100.1'') (InvalidSelection 3)])"
    unfolding n7 len using ok by simp
  from n2 a b show ?thesis by (intro conjI)
qed

text \<open>
  The claim as it stands, for every message, fails for a message of a bot: the listener
  returns at once, for a number in range as for one out of range.
\<close>

theorem bot_number_reply_is_skipped:
  "number_pattern (msg_text (reply_2\<lparr>msg_bot_id := Some ''B1''\<rparr>)) \<and>
   msg_thread_ts (reply_2\<lparr>msg_bot_id := Some ''B1''\<rparr>) = Some ''100.1'' \<and>
   lookup ''100.1'' results_shown =
     Some \<lparr>results = Some three_results, query = Some ''Inception'', magnetLink = None,
           torrentTitle = None, channel = ''C1'', userId = ''U1''\<rparr> \<and>
   number_listener engine results_shown (reply_2\<lparr>msg_bot_id := Some ''B1''\<rparr>) =
     (results_shown, []) \<and>
   number_listener engine results_shown (reply_2\<lparr>msg_bot_id := Some ''B1'', msg_text := ''7''\<rparr>) =
     (results_shown, [])"
  by code_simp

end
